theory Spec2Isabelle
  imports Complex_Main
begin

section \<open>JavaScript strings\<close>

text \<open>
  A JavaScript string is a sequence of UTF-16 code units, and \<open>s.length\<close> counts code
  units.  The literals of the source are Japanese, so a string is modelled as the list of
  its code units.  Each literal below is the code-unit sequence of a literal of the
  TypeScript source; the text next to it says where the literal stands and what it says.
\<close>

type_synonym jsstring = "nat list"

text \<open>Truthiness of a string value: \<open>undefined\<close> and the empty string are falsy.\<close>

fun truthy :: "jsstring option \<Rightarrow> bool" where
  "truthy None = False"
| "truthy (Some s) = (s \<noteq> [])"

text \<open>\<open>a || b\<close> on strings, where \<open>a\<close> may be \<open>undefined\<close>.\<close>

definition or_else :: "jsstring option \<Rightarrow> jsstring \<Rightarrow> jsstring" where
  "or_else a b = (case a of None \<Rightarrow> b | Some s \<Rightarrow> if s \<noteq> [] then s else b)"

text \<open>
  Template interpolation \<open>${n}\<close> of a non-negative integer: its decimal digits,
  most significant first; the code unit of digit \<open>d\<close> is \<open>48 + d\<close>.
\<close>

fun decimal :: "nat \<Rightarrow> jsstring" where
  "decimal n = (if n < 10 then [48 + n] else decimal (n div 10) @ [48 + n mod 10])"

declare decimal.simps [simp del]

text \<open>
  \<open>String.prototype.trim\<close> removes the ECMAScript white space and line terminator
  code units from both ends.
\<close>

definition is_ws :: "nat \<Rightarrow> bool" where
  "is_ws c = (c \<in> {9, 10, 11, 12, 13, 32, 160, 5760, 8232, 8233, 8239, 8287, 12288, 65279}
              \<or> (8192 \<le> c \<and> c \<le> 8202))"

definition trim :: "jsstring \<Rightarrow> jsstring" where
  "trim s = rev (dropWhile is_ws (rev (dropWhile is_ws s)))"

section \<open>Markdown formatting\<close>

text \<open>
  \<^verbatim>\<open>formatAsMarkdown\<close> of \<^verbatim>\<open>ContentStreamingDisplay.tsx\<close> and
  \<^verbatim>\<open>ContentGenerator._formatAsMarkdown\<close> have the same body:
  \<^verbatim>\<open>
  let markdown = content;
  for (let i = 0; i < images.length; i++) {
    markdown += `\n\n![<kiji gazou> ${i+1}](${images[i]})`;
  }
  if (blogUrl) { markdown += `\n\n[<shousai wo miru>](${blogUrl})`; }
  return markdown;
  \<close>
  where the two bracketed labels are Japanese: \<open>image_open\<close> is the text from the two
  line feeds up to and including the space after the label ("article image"), and
  \<open>link_open\<close> is the text from the two line feeds up to and including \<^verbatim>\<open>](\<close> (the
  label says "see the details").
\<close>

definition image_open :: jsstring where
  "image_open = [10, 10, 33, 91, 35352, 20107, 30011, 20687, 32]"

definition link_open :: jsstring where
  "link_open = [10, 10, 91, 35443, 32048, 12434, 35211, 12427, 93, 40]"

definition image_ref :: "nat \<Rightarrow> jsstring \<Rightarrow> jsstring" where
  "image_ref k url = image_open @ decimal k @ [93, 40] @ url @ [41]"

definition source_link :: "jsstring \<Rightarrow> jsstring" where
  "source_link url = link_open @ url @ [41]"

function images_loop :: "jsstring list \<Rightarrow> nat \<Rightarrow> jsstring \<Rightarrow> jsstring" where
  "images_loop images i markdown =
     (if i < length images
      then images_loop images (Suc i) (markdown @ image_ref (i + 1) (images ! i))
      else markdown)"
  by pat_completeness auto
termination
  by (relation "measure (\<lambda>(images, i, markdown). length images - i)") auto

declare images_loop.simps [simp del]

definition formatAsMarkdown :: "jsstring \<Rightarrow> jsstring list \<Rightarrow> jsstring option \<Rightarrow> jsstring" where
  "formatAsMarkdown content images blogUrl =
     (let markdown = images_loop images 0 content
      in case blogUrl of
           None \<Rightarrow> markdown
         | Some url \<Rightarrow> if truthy (Some url) then markdown @ source_link url else markdown)"

text \<open>The server-side copy, \<^verbatim>\<open>ContentGenerator._formatAsMarkdown\<close>.\<close>

definition formatAsMarkdown_generator ::
  "jsstring \<Rightarrow> jsstring list \<Rightarrow> jsstring option \<Rightarrow> jsstring" where
  "formatAsMarkdown_generator content selected_images blog_url =
     (let markdown = images_loop selected_images 0 content
      in case blog_url of
           None \<Rightarrow> markdown
         | Some url \<Rightarrow> if truthy (Some url) then markdown @ source_link url else markdown)"

text \<open>
  The specification's wording: the content, then one image reference per selected image
  in selection order (numbered from 1), then the source link.
\<close>

definition image_refs :: "jsstring list \<Rightarrow> jsstring" where
  "image_refs images = concat (map (\<lambda>(k, url). image_ref k url) (List.enumerate 1 images))"

definition link_part :: "jsstring option \<Rightarrow> jsstring" where
  "link_part u = (case u of None \<Rightarrow> [] | Some url \<Rightarrow> if url = [] then [] else source_link url)"

definition markdown_spec :: "jsstring \<Rightarrow> jsstring list \<Rightarrow> jsstring option \<Rightarrow> jsstring" where
  "markdown_spec c imgs u = c @ image_refs imgs @ link_part u"

section \<open>Title extraction of the scraper\<close>

text \<open>
  \<^verbatim>\<open>BlogScraper._extractTitle\<close> (the same text in both versions of the scraper).  The
  cheerio queries are the collaborator; the model takes their results as the fields of a
  record: \<open>h1_text\<close> is \<^verbatim>\<open>$('h1').first().text()\<close>, \<open>class_text\<close> is
  \<^verbatim>\<open>$('.article-title, .entry-title, .post-title').first().text()\<close>, \<open>title_text\<close> is
  \<^verbatim>\<open>$('title').text()\<close> (each the empty string when nothing matches), and
  \<open>page_content\<close>, \<open>page_images\<close> are what \<^verbatim>\<open>_extractContent\<close> and
  \<^verbatim>\<open>_extractImages\<close> return.
\<close>

record page =
  h1_text :: jsstring
  class_text :: jsstring
  title_text :: jsstring
  page_content :: jsstring
  page_images :: "jsstring list"

text \<open>The fallback literal of \<^verbatim>\<open>_extractTitle\<close> ("title unknown", six code units).\<close>

definition title_unknown :: jsstring where
  "title_unknown = [12479, 12452, 12488, 12523, 19981, 26126]"

definition extractTitle :: "page \<Rightarrow> jsstring" where
  "extractTitle p =
     (let h1 = trim (h1_text p) in
      if h1 \<noteq> [] then h1
      else let articleTitle = trim (class_text p) in
        if articleTitle \<noteq> [] then articleTitle
        else let titleTag = trim (title_text p) in
          if titleTag \<noteq> [] then titleTag
          else title_unknown)"

record scraped =
  title :: jsstring
  content :: jsstring
  images :: "jsstring list"

text \<open>
  \<^verbatim>\<open>BlogScraper.scrape\<close>, newer version: a first request without headers, on its failure
  a second one with headers; a fetched page is parsed; an axios error with status 403
  returns \<^verbatim>\<open>_createFallbackContent()\<close> (taken as the parameter \<open>fallback\<close>); every
  other failure is rethrown with a prefixed message.
\<close>

datatype fetch_result =
    Fetched page
  | AxiosFail "nat option" jsstring
  | OtherFail jsstring

text \<open>
  The prefix of the error that \<^verbatim>\<open>scrape\<close> throws ("scraping of the article failed: ",
  ending in a colon and a space).
\<close>

definition scrape_failed_prefix :: jsstring where
  "scrape_failed_prefix = [35352, 20107, 12398, 12473, 12463, 12524, 12452, 12500, 12531,
     12464, 12395, 22833, 25943, 12375, 12414, 12375, 12383, 58, 32]"

definition parse_page :: "page \<Rightarrow> scraped" where
  "parse_page p = \<lparr> title = extractTitle p, content = page_content p, images = page_images p \<rparr>"

definition scrape :: "fetch_result \<Rightarrow> fetch_result \<Rightarrow> scraped \<Rightarrow> jsstring + scraped" where
  "scrape first second fallback =
     (case first of
        Fetched p \<Rightarrow> Inr (parse_page p)
      | _ \<Rightarrow>
        (case second of
           Fetched p \<Rightarrow> Inr (parse_page p)
         | AxiosFail st msg \<Rightarrow>
             if st = Some 403 then Inr fallback else Inl (scrape_failed_prefix @ msg)
         | OtherFail msg \<Rightarrow> Inl (scrape_failed_prefix @ msg)))"

text \<open>The older version: one request, no fallback.\<close>

definition scrape_v1 :: "fetch_result \<Rightarrow> jsstring + scraped" where
  "scrape_v1 r =
     (case r of
        Fetched p \<Rightarrow> Inr (parse_page p)
      | AxiosFail st msg \<Rightarrow> Inl (scrape_failed_prefix @ msg)
      | OtherFail msg \<Rightarrow> Inl (scrape_failed_prefix @ msg))"

section \<open>Values parsed from JSON\<close>

text \<open>
  A field of the object that \<^verbatim>\<open>JSON.parse\<close> (or the body parser) returns, for a
  field whose declared type is \<open>'a\<close>: the field is absent (reading it gives
  \<^verbatim>\<open>undefined\<close>), or it is \<^verbatim>\<open>null\<close>, or it holds a value of the declared type.
  A destructuring default \<^verbatim>\<open>{ x = d }\<close> and a parameter default replace
  \<^verbatim>\<open>undefined\<close> only, so \<^verbatim>\<open>null\<close> stays \<^verbatim>\<open>null\<close>: \<open>with_default d f\<close> is the
  value after the default, with \<open>None\<close> for \<^verbatim>\<open>null\<close>.
\<close>

datatype 'a field = Absent | Null | Value 'a

definition with_default :: "'a \<Rightarrow> 'a field \<Rightarrow> 'a option" where
  "with_default d f = (case f of Absent \<Rightarrow> Some d | Null \<Rightarrow> None | Value v \<Rightarrow> Some v)"

text \<open>
  The message of the \<^verbatim>\<open>TypeError\<close> that reading a property of \<^verbatim>\<open>undefined\<close> or
  \<^verbatim>\<open>null\<close> throws in Node:
  \<^verbatim>\<open>Cannot read properties of <what> (reading '<prop>')\<close>; and the texts
  \<^verbatim>\<open>undefined\<close>, \<^verbatim>\<open>null\<close>, \<^verbatim>\<open>split\<close>, \<^verbatim>\<open>length\<close>.
\<close>

definition undefined_text :: jsstring where
  "undefined_text = [117, 110, 100, 101, 102, 105, 110, 101, 100]"

definition null_text :: jsstring where
  "null_text = [110, 117, 108, 108]"

definition split_name :: jsstring where
  "split_name = [115, 112, 108, 105, 116]"

definition length_name :: jsstring where
  "length_name = [108, 101, 110, 103, 116, 104]"

definition type_error :: "jsstring \<Rightarrow> jsstring \<Rightarrow> jsstring" where
  "type_error what prop =
     [67, 97, 110, 110, 111, 116, 32, 114, 101, 97, 100, 32, 112, 114, 111, 112, 101, 114,
      116, 105, 101, 115, 32, 111, 102, 32] @ what
     @ [32, 40, 114, 101, 97, 100, 105, 110, 103, 32, 39] @ prop @ [39, 41]"

section \<open>Events and the generation session\<close>

text \<open>
  The events that travel on the channel.  A constructor stands for the JSON object with
  that \<open>type\<close>; the arguments are the fields that depend on data (the constant
  \<open>message\<close> texts are left out): \<open>ScrapedContent title contentLength imageCount\<close>,
  \<open>VariationInfo index\<close>, \<open>VariationComplete index\<close>, and the \<open>error\<close> or \<open>warning\<close>
  text.  The events of the generation backend are passed through unchanged; the client
  distinguishes the five kinds named below, every other backend event is
  \<open>OtherBackendEvent\<close>.
\<close>

datatype backend_event =
    ResponseCreated
  | ResponseInProgress
  | WebSearchCall
  | OutputTextDelta jsstring
  | OutputTextDone
  | OtherBackendEvent

datatype event =
    ErrorEvent jsstring
  | ProcessStart
  | ScrapedContent jsstring nat nat
  | ScrapingWarning jsstring
  | VariationInfo nat
  | GenerationStarting
  | WebSearchComplete
  | WebSearchError jsstring
  | BackendEvent backend_event
  | VariationComplete nat

text \<open>
  What \<^verbatim>\<open>res.write\<close> puts on the channel: \<open>Data e\<close> is the message
  \<^verbatim>\<open>data: <JSON of e>\n\n\<close> and \<open>Done\<close> is the sentinel \<^verbatim>\<open>data: [DONE]\n\n\<close>.
  \<^verbatim>\<open>[DONE]\<close> is not JSON, so no \<^verbatim>\<open>JSON.stringify\<close> output equals the sentinel.
\<close>

datatype sse = Data event | Done

text \<open>
  The backend call \<^verbatim>\<open>openai.responses.create({..., stream: true})\<close>: it fails to
  connect with a message, or yields events and then either ends (\<open>None\<close>) or throws
  while being iterated (\<open>Some message\<close>).
\<close>

datatype backend_result =
    ConnectFails jsstring
  | Streams "backend_event list" "jsstring option"

text \<open>
  The prefix of the error that the generator throws ("streaming generation with the
  OpenAI API failed: ").
\<close>

definition stream_failed_prefix :: jsstring where
  "stream_failed_prefix = [79, 112, 101, 110, 65, 73, 32, 65, 80, 73, 12391, 12398, 12473,
     12488, 12522, 12540, 12511, 12531, 12464, 29983, 25104, 12395, 22833, 25943, 12375,
     12414, 12375, 12383, 58, 32]"

text \<open>
  \<^verbatim>\<open>ContentGenerator.generateLineContentStream\<close>, an async generator.  The result is the
  list of the chunks it yields, and the message of the error it throws, if it throws.
  \<open>enh\<close> is the outcome of \<^verbatim>\<open>enhanceContentWithWebSearch\<close> (\<open>Inl\<close> its error message).
  \<open>selected\<close> is the argument \<^verbatim>\<open>selected_images\<close> as the relay passes it: an array, or
  \<open>None\<close> for \<^verbatim>\<open>null\<close>.  After the web search and before its own \<^verbatim>\<open>try\<close>, the generator
  calls \<^verbatim>\<open>_buildPrompt\<close>, which reads \<^verbatim>\<open>selected_images.length\<close> and so throws a
  \<^verbatim>\<open>TypeError\<close> on \<^verbatim>\<open>null\<close>; that error leaves the generator as it is, without the
  prefix.
\<close>

definition generateLineContentStream ::
  "bool \<Rightarrow> jsstring + unit \<Rightarrow> nat \<Rightarrow> jsstring list option \<Rightarrow> backend_result
   \<Rightarrow> event list \<times> jsstring option" where
  "generateLineContentStream use_ws enh variationIndex selected backend =
     (let search = (if use_ws
                    then (case enh of Inr _ \<Rightarrow> [WebSearchComplete] | Inl m \<Rightarrow> [WebSearchError m])
                    else [])
      in case selected of
           None \<Rightarrow> (search, Some (type_error null_text length_name))
         | Some imgs \<Rightarrow>
             (case backend of
                ConnectFails m \<Rightarrow>
                  (search @ [VariationInfo variationIndex], Some (stream_failed_prefix @ m))
              | Streams evs None \<Rightarrow>
                  (search @ [VariationInfo variationIndex] @ map BackendEvent evs
                     @ [VariationComplete variationIndex], None)
              | Streams evs (Some m) \<Rightarrow>
                  (search @ [VariationInfo variationIndex] @ map BackendEvent evs,
                   Some (stream_failed_prefix @ m))))"

section \<open>The stream relay\<close>

text \<open>
  The handler of \<^verbatim>\<open>/api/generate-line-content-stream\<close>.  \<open>request_data\<close> is the object
  that \<^verbatim>\<open>JSON.parse(requestData)\<close> returns (a parsed number, string, boolean or
  array destructures like an object without these fields; a parsed \<^verbatim>\<open>null\<close> makes the
  destructuring throw and is \<open>BadJson\<close> below).  The field \<open>scraped_content\<close> is the
  pre-scraped article that the POST handler puts into the redirect; the other fields of
  the request only reach the prompt.  \<open>variationIndex\<close> is taken as \<^verbatim>\<open>parseInt\<close> reads
  it; it reaches only the payload of events and the backend call.
\<close>

record request_data =
  blog_url :: "jsstring field"
  selected_images :: "jsstring list field"
  use_web_search :: "bool field"
  scraped_content :: "scraped field"

text \<open>
  The query parameter \<^verbatim>\<open>requestData\<close>: missing, empty or not a string
  (\<open>NoRequestData\<close>); a string on which \<^verbatim>\<open>JSON.parse\<close> or the destructuring throws
  with a message (\<open>BadJson\<close>); or a string that parses.
\<close>

datatype request_query =
    NoRequestData
  | BadJson jsstring
  | RequestData request_data

datatype http_method = GET | POST | OtherMethod

text \<open>
  The collaborators: \<open>scrape_url\<close> is \<^verbatim>\<open>new BlogScraper(url).scrape()\<close> (\<open>Inl\<close> the message
  of the error it throws), \<open>enhance\<close> the web search on a topic, \<open>createStream\<close> the
  backend call for an article and a variation index.
\<close>

record collaborators =
  scrape_url :: "jsstring field \<Rightarrow> jsstring + scraped"
  enhance :: "jsstring \<Rightarrow> jsstring + unit"
  createStream :: "scraped \<Rightarrow> nat \<Rightarrow> backend_result"

text \<open>
  What one invocation did: the messages written to the channel in order, whether
  \<^verbatim>\<open>res.end()\<close> was called, the URLs the scraper was called with, and the articles that
  were handed to \<^verbatim>\<open>generateLineContentStream\<close>.
\<close>

record stream_log =
  written :: "sse list"
  ended :: bool
  scrape_calls :: "jsstring field list"
  gen_calls :: "scraped list"

datatype reply =
    MethodNotAllowed
  | EventStream stream_log

text \<open>
  The texts of the relay's \<open>error\<close> and \<open>warning\<close> events: "request data not found";
  "OPENAI_API_KEY is not set"; the prefix "streaming error: " of the outer
  \<^verbatim>\<open>catch\<close>; the prefix "an error occurred during content generation: " of the
  generation \<^verbatim>\<open>catch\<close>; and the prefix of the scraping warning ("detailed scraping of
  the article failed, processing continues with basic information: ").
\<close>

definition msg_no_request_data :: jsstring where
  "msg_no_request_data = [12522, 12463, 12456, 12473, 12488, 12487, 12540, 12479, 12364,
     35211, 12388, 12363, 12426, 12414, 12379, 12435]"

definition msg_no_api_key :: jsstring where
  "msg_no_api_key = [79, 80, 69, 78, 65, 73, 95, 65, 80, 73, 95, 75, 69, 89, 12364, 35373,
     23450, 12373, 12428, 12390, 12356, 12414, 12379, 12435]"

definition streaming_error_prefix :: jsstring where
  "streaming_error_prefix = [12473, 12488, 12522, 12540, 12511, 12531, 12464, 12456, 12521,
     12540, 58, 32]"

definition generation_error_prefix :: jsstring where
  "generation_error_prefix = [12467, 12531, 12486, 12531, 12484, 29983, 25104, 20013, 12395,
     12456, 12521, 12540, 12364, 30330, 29983, 12375, 12414, 12375, 12383, 58, 32]"

definition scraping_warning_prefix :: jsstring where
  "scraping_warning_prefix = [35352, 20107, 12398, 35443, 32048, 12394, 12473, 12463, 12524,
     12452, 12500, 12531, 12464, 12395, 22833, 25943, 12375, 12414, 12375, 12383, 12364,
     12289, 22522, 26412, 24773, 22577, 12391, 20966, 29702, 12434, 32154, 34892, 12375,
     12414, 12377, 58, 32]"

text \<open>
  The literals of the placeholder content: the default title ("article title"); the
  content used for an empty content ("the content of the article could not be obtained
  sufficiently."); the text appended after the URL (" no kiji wo moto ni, ...": "based
  on the article of ..., a LINE article is created."); and the content of the article
  built when the scraper throws ("the content of the article could not be analysed.
  ...").
\<close>

definition default_title :: jsstring where
  "default_title = [35352, 20107, 12479, 12452, 12488, 12523]"

definition insufficient_content :: jsstring where
  "insufficient_content = [35352, 20107, 12398, 20869, 23481, 12364, 21313, 20998, 12395,
     21462, 24471, 12391, 12365, 12414, 12379, 12435, 12391, 12375, 12383, 12290]"

definition based_on_suffix :: jsstring where
  "based_on_suffix = [32, 12398, 35352, 20107, 12434, 22522, 12395, 12289, 76, 73, 78, 69,
     37197, 20449, 35352, 20107, 12434, 20316, 25104, 12375, 12414, 12377, 12290]"

definition unparsed_content :: jsstring where
  "unparsed_content = [35352, 20107, 12398, 20869, 23481, 12434, 35299, 26512, 12391, 12365,
     12414, 12379, 12435, 12391, 12375, 12383, 12290, 79, 112, 101, 110, 65, 73, 12398, 87,
     101, 98, 26908, 32034, 27231, 33021, 12434, 20351, 29992, 12375, 12390, 12289, 38306,
     36899, 24773, 22577, 12434, 26908, 32034, 12375, 12414, 12377, 12290]"

text \<open>String concatenation with a field: \<^verbatim>\<open>undefined\<close> and \<^verbatim>\<open>null\<close> give their names.\<close>

definition to_text :: "jsstring field \<Rightarrow> jsstring" where
  "to_text u = (case u of Absent \<Rightarrow> undefined_text | Null \<Rightarrow> null_text | Value s \<Rightarrow> s)"

text \<open>\<^verbatim>\<open>url.split('/').pop()\<close>: the part after the last \<open>/\<close> (code unit 47).\<close>

definition last_segment :: "jsstring \<Rightarrow> jsstring" where
  "last_segment url = rev (takeWhile (\<lambda>c. c \<noteq> 47) (rev url))"

text \<open>
  The success branch of the scraping block:
  \<^verbatim>\<open>
  if (!scraped_content.content || scraped_content.content.length < 50) {
    scraped_content.content = scraped_content.content || <insufficient_content>;
    scraped_content.content += '\n\n' + lineRequest.blog_url + <based_on_suffix>;
  }
  \<close>
\<close>

definition pad_short_content :: "jsstring field \<Rightarrow> scraped \<Rightarrow> scraped" where
  "pad_short_content url sc =
     (if content sc = [] \<or> length (content sc) < 50
      then sc\<lparr>content := or_else (Some (content sc)) insufficient_content
                            @ [10, 10] @ to_text url @ based_on_suffix\<rparr>
      else sc)"

text \<open>
  The article built in the \<^verbatim>\<open>catch\<close> branch of the scraping block:
  \<^verbatim>\<open>
  scraped_content = {
    title: lineRequest.blog_url.split('/').pop() || <default_title>,
    content: <unparsed_content>,
    images: selected_images.length > 0 ? selected_images : []
  };
  \<close>
  The properties are evaluated in this order.  \<^verbatim>\<open>blog_url.split\<close> throws when the URL is
  absent or \<^verbatim>\<open>null\<close>, and \<^verbatim>\<open>selected_images.length\<close> throws when
  \<^verbatim>\<open>selected_images\<close> is \<^verbatim>\<open>null\<close>; \<open>Inl\<close> is the message of the \<^verbatim>\<open>TypeError\<close>.
\<close>

definition dummy_content :: "jsstring field \<Rightarrow> jsstring list option \<Rightarrow> jsstring + scraped" where
  "dummy_content url selected =
     (case url of
        Absent \<Rightarrow> Inl (type_error undefined_text split_name)
      | Null \<Rightarrow> Inl (type_error null_text split_name)
      | Value u \<Rightarrow>
          (case selected of
             None \<Rightarrow> Inl (type_error null_text length_name)
           | Some imgs \<Rightarrow>
               Inr \<lparr> title = or_else (Some (last_segment u)) default_title,
                     content = unparsed_content,
                     images = (if length imgs > 0 then imgs else []) \<rparr>))"

text \<open>
  The values after the destructuring defaults: \<^verbatim>\<open>use_web_search = true\<close> (a
  \<^verbatim>\<open>null\<close> stays and is falsy where the generator tests it), and the variation index,
  0 when the query parameter is missing.
\<close>

definition web_search_flag :: "request_data \<Rightarrow> bool" where
  "web_search_flag parsedData =
     (case with_default True (use_web_search parsedData) of None \<Rightarrow> False | Some b \<Rightarrow> b)"

definition index_or_zero :: "nat option \<Rightarrow> nat" where
  "index_or_zero variationIndex = (case variationIndex of None \<Rightarrow> 0 | Some n \<Rightarrow> n)"

text \<open>
  The generation block and the end of the handler: the chunks of the generator are
  written in order; an error it throws is written as an \<open>error\<close> event; then the
  sentinel is written and the response is ended.
\<close>

definition relay_generation ::
  "collaborators \<Rightarrow> bool \<Rightarrow> nat \<Rightarrow> jsstring list option \<Rightarrow> scraped \<Rightarrow> sse list" where
  "relay_generation C use_ws varIndex selected sc =
     (case generateLineContentStream use_ws (enhance C (title sc)) varIndex selected
             (createStream C sc varIndex) of
        (chunks, None) \<Rightarrow> map Data chunks @ [Done]
      | (chunks, Some m) \<Rightarrow>
          map Data chunks @ [Data (ErrorEvent (generation_error_prefix @ m)), Done])"

text \<open>
  The handler.  An error thrown inside the scraping \<^verbatim>\<open>catch\<close> block reaches the outer
  \<^verbatim>\<open>catch\<close>, which writes an \<open>error\<close> event and ends the response.
\<close>

definition handler_stream ::
  "collaborators \<Rightarrow> http_method \<Rightarrow> request_query \<Rightarrow> nat option \<Rightarrow> jsstring option \<Rightarrow> reply" where
  "handler_stream C method query variationIndex openaiApiKey =
     (if method \<noteq> GET then MethodNotAllowed
      else case query of
        NoRequestData \<Rightarrow>
          EventStream \<lparr> written = [Data (ErrorEvent msg_no_request_data)], ended = True,
                        scrape_calls = [], gen_calls = [] \<rparr>
      | BadJson m \<Rightarrow>
          EventStream \<lparr> written = [Data (ErrorEvent (streaming_error_prefix @ m))],
                        ended = True, scrape_calls = [], gen_calls = [] \<rparr>
      | RequestData parsedData \<Rightarrow>
          (let selected = with_default [] (selected_images parsedData);
               use_ws = web_search_flag parsedData;
               varIndex = index_or_zero variationIndex;
               url = blog_url parsedData
           in if \<not> truthy openaiApiKey then
                EventStream \<lparr> written = [Data (ErrorEvent msg_no_api_key)], ended = True,
                              scrape_calls = [], gen_calls = [] \<rparr>
              else case scrape_url C url of
                Inr fetched \<Rightarrow>
                  (let sc = pad_short_content url fetched
                   in EventStream
                        \<lparr> written =
                            [Data ProcessStart,
                             Data (ScrapedContent (title sc) (length (content sc))
                                     (length (images sc))),
                             Data (VariationInfo varIndex), Data GenerationStarting]
                            @ relay_generation C use_ws varIndex selected sc,
                          ended = True, scrape_calls = [url], gen_calls = [sc] \<rparr>)
              | Inl errorMessage \<Rightarrow>
                  (case dummy_content url selected of
                     Inl typeError \<Rightarrow>
                       EventStream
                         \<lparr> written = [Data ProcessStart,
                              Data (ErrorEvent (streaming_error_prefix @ typeError))],
                           ended = True, scrape_calls = [url], gen_calls = [] \<rparr>
                   | Inr sc \<Rightarrow>
                       EventStream
                         \<lparr> written =
                             [Data ProcessStart,
                              Data (ScrapingWarning (scraping_warning_prefix @ errorMessage)),
                              Data (VariationInfo varIndex), Data GenerationStarting]
                             @ relay_generation C use_ws varIndex selected sc,
                           ended = True, scrape_calls = [url], gen_calls = [sc] \<rparr>)))"

text \<open>
  The content resolution of the POST handler \<^verbatim>\<open>/api/generate-line-content\<close> (the
  version that redirects to the stream endpoint): a pre-scraped article with a
  non-empty title and content is used and the scraper is not called; otherwise the
  scraper is called, and its failure ends the request with status 500.  The result is
  the article and the URLs the scraper was called with.
\<close>

definition resolve_content_post ::
  "collaborators \<Rightarrow> request_data \<Rightarrow> (jsstring + scraped) \<times> jsstring field list" where
  "resolve_content_post C requestData =
     (case scraped_content requestData of
        Value existing \<Rightarrow>
          if title existing \<noteq> [] \<and> content existing \<noteq> [] then (Inr existing, [])
          else (scrape_url C (blog_url requestData), [blog_url requestData])
      | _ \<Rightarrow> (scrape_url C (blog_url requestData), [blog_url requestData]))"

section \<open>Observations on a reply, and fixed inputs for the evaluations\<close>

text \<open>What was written to the channel, and whether the response was ended.\<close>

definition channel :: "reply \<Rightarrow> sse list" where
  "channel r = (case r of MethodNotAllowed \<Rightarrow> [] | EventStream lg \<Rightarrow> written lg)"

definition closed :: "reply \<Rightarrow> bool" where
  "closed r = (case r of MethodNotAllowed \<Rightarrow> True | EventStream lg \<Rightarrow> ended lg)"

definition scraper_calls :: "reply \<Rightarrow> jsstring field list" where
  "scraper_calls r = (case r of MethodNotAllowed \<Rightarrow> [] | EventStream lg \<Rightarrow> scrape_calls lg)"

definition generated_from :: "reply \<Rightarrow> scraped list" where
  "generated_from r = (case r of MethodNotAllowed \<Rightarrow> [] | EventStream lg \<Rightarrow> gen_calls lg)"

fun is_scraped_content :: "sse \<Rightarrow> bool" where
  "is_scraped_content (Data (ScrapedContent t n k)) = True"
| "is_scraped_content m = False"

fun is_scraping_warning :: "sse \<Rightarrow> bool" where
  "is_scraping_warning (Data (ScrapingWarning w)) = True"
| "is_scraping_warning m = False"

text \<open>
  A request for the URL \<open>h/a\<close>, an API key, an article of 60 code units that the scraper
  fetches, a short article, and a pre-scraped article of 60 code units.
\<close>

definition a_request :: request_data where
  "a_request = \<lparr> blog_url = Value [104, 47, 97], selected_images = Absent,
                  use_web_search = Absent, scraped_content = Absent \<rparr>"

definition a_key :: "jsstring option" where
  "a_key = Some [107]"

definition fetched_article :: scraped where
  "fetched_article = \<lparr> title = [70], content = replicate 60 121, images = [] \<rparr>"

definition short_article :: scraped where
  "short_article = \<lparr> title = [84], content = [72, 105], images = [] \<rparr>"

definition prescraped_article :: scraped where
  "prescraped_article = \<lparr> title = [80], content = replicate 60 120, images = [] \<rparr>"

definition a_backend :: backend_result where
  "a_backend = Streams [OutputTextDelta [72, 105], OutputTextDone] None"

definition failing_scraper :: collaborators where
  "failing_scraper =
     \<lparr> scrape_url = (\<lambda>url. Inl [102, 97, 105, 108]), enhance = (\<lambda>topic. Inr ()),
       createStream = (\<lambda>sc i. a_backend) \<rparr>"

definition short_scraper :: collaborators where
  "short_scraper =
     \<lparr> scrape_url = (\<lambda>url. Inr short_article), enhance = (\<lambda>topic. Inr ()),
       createStream = (\<lambda>sc i. a_backend) \<rparr>"

definition working_scraper :: collaborators where
  "working_scraper =
     \<lparr> scrape_url = (\<lambda>url. Inr fetched_article), enhance = (\<lambda>topic. Inr ()),
       createStream = (\<lambda>sc i. a_backend) \<rparr>"

section \<open>Non-streaming generation\<close>

text \<open>
  \<^verbatim>\<open>ContentGenerator.generateLineContent\<close>, the version on the Responses API.  The output
  of a response is a list of items; an item that is a message of the assistant carries
  content parts.
\<close>

datatype content_part = OutputText jsstring | OtherPart

datatype output_item = AssistantMessage "content_part list" | OtherItem

datatype create_result = Throws jsstring | Responds "output_item list"

record generated =
  g_content :: jsstring
  g_markdown :: jsstring

text \<open>
  The inner loop with its \<^verbatim>\<open>break\<close> takes the text of the first \<open>output_text\<close> part
  of an item; the outer loop runs over all items, so a later item overwrites \<open>content\<close>.
\<close>

fun first_output_text :: "content_part list \<Rightarrow> jsstring option" where
  "first_output_text [] = None"
| "first_output_text (OutputText t # parts) = Some t"
| "first_output_text (OtherPart # parts) = first_output_text parts"

fun extract_text :: "output_item list \<Rightarrow> jsstring \<Rightarrow> jsstring" where
  "extract_text [] c = c"
| "extract_text (AssistantMessage parts # items) c =
     extract_text items (case first_output_text parts of None \<Rightarrow> c | Some t \<Rightarrow> t)"
| "extract_text (OtherItem # items) c = extract_text items c"

definition generation_failed_prefix :: jsstring where
  "generation_failed_prefix = [79, 112, 101, 110, 65, 73, 32, 65, 80, 73, 12391, 12398, 12467,
     12531, 12486, 12531, 12484, 29983, 25104, 12395, 22833, 25943, 12375, 12414, 12375,
     12383, 58, 32]"

text \<open>
  The loop \<^verbatim>\<open>for (let i = 0; i < 3; i++)\<close>.  \<open>backend k i\<close> is what the \<open>k\<close>-th call of
  \<^verbatim>\<open>openai.responses.create\<close> does when it is made for index \<open>i\<close> (the prompt is fixed
  for a request, so it is part of the backend).  On an empty content the body runs
  \<^verbatim>\<open>i--; continue;\<close> and the loop header then runs \<^verbatim>\<open>i++\<close>.  The loop may run
  forever, so it is a partial function: \<open>None\<close> is "does not return", \<open>Some (Inl m)\<close> is
  the error thrown, \<open>Some (Inr vs)\<close> the returned variations.
\<close>

partial_function (option) variations_loop ::
  "(nat \<Rightarrow> int \<Rightarrow> create_result) \<Rightarrow> jsstring list \<Rightarrow> jsstring option
   \<Rightarrow> nat \<Rightarrow> int \<Rightarrow> generated list \<Rightarrow> (jsstring + generated list) option" where
  "variations_loop backend selected url k i variations =
     (if i < 3 then
        (case backend k i of
           Throws m \<Rightarrow> Some (Inl (generation_failed_prefix @ m))
         | Responds output \<Rightarrow>
             (let c = extract_text output [] in
              if length (trim c) = 0
              then variations_loop backend selected url (Suc k) ((i - 1) + 1) variations
              else variations_loop backend selected url (Suc k) (i + 1)
                     (variations @ [\<lparr> g_content = c,
                        g_markdown = formatAsMarkdown_generator c selected url \<rparr>])))
      else Some (Inr variations))"

text \<open>
  \<^verbatim>\<open>generateLineContent(request, scraped_content, selected_images = [], ...)\<close>.
  Before the loop it builds the prompt; \<^verbatim>\<open>_buildPrompt\<close> reads
  \<^verbatim>\<open>selected_images.length\<close>, so a \<^verbatim>\<open>null\<close> makes it throw a \<^verbatim>\<open>TypeError\<close>, outside the
  \<^verbatim>\<open>try\<close> of the loop.  (The web search before it is in a \<^verbatim>\<open>try\<close> whose \<^verbatim>\<open>catch\<close>
  only logs.)  \<open>url\<close> is \<^verbatim>\<open>request.blog_url\<close>; the loop only tests it for truthiness,
  where \<^verbatim>\<open>undefined\<close> and \<^verbatim>\<open>null\<close> behave alike (\<open>None\<close>).
\<close>

definition present :: "'a field \<Rightarrow> 'a option" where
  "present f = (case f of Value v \<Rightarrow> Some v | _ \<Rightarrow> None)"

definition generateLineContent ::
  "(nat \<Rightarrow> int \<Rightarrow> create_result) \<Rightarrow> jsstring list field \<Rightarrow> jsstring field
   \<Rightarrow> (jsstring + generated list) option" where
  "generateLineContent backend selected url =
     (case with_default [] selected of
        None \<Rightarrow> Some (Inl (type_error null_text length_name))
      | Some imgs \<Rightarrow> variations_loop backend imgs (present url) 0 0 [])"

text \<open>A backend result that is completed but empty.\<close>

definition empty_result :: "create_result \<Rightarrow> bool" where
  "empty_result r = (case r of Throws m \<Rightarrow> False | Responds output \<Rightarrow> trim (extract_text output []) = [])"

definition always_empty :: "nat \<Rightarrow> int \<Rightarrow> create_result" where
  "always_empty k i = Responds [AssistantMessage [OutputText [32] ] ]"

definition empty_twice :: "nat \<Rightarrow> int \<Rightarrow> create_result" where
  "empty_twice k i = (if k < 2 then Responds [] else Responds [AssistantMessage [OutputText [72, 105] ] ])"

text \<open>
  The variation that the loop builds from the output of a response, and what a result
  of the loop looks like when the loop is at call \<open>k\<close> and index \<open>i\<close> with the variations
  \<open>vs\<close>: the error of a later call that throws, or \<open>vs\<close> followed by one variation for
  each remaining index, each built from a non-empty result of a call made for that index.
\<close>

definition made_variation :: "jsstring list \<Rightarrow> jsstring option \<Rightarrow> output_item list \<Rightarrow> generated" where
  "made_variation selected url output =
     \<lparr> g_content = extract_text output [],
       g_markdown = formatAsMarkdown_generator (extract_text output []) selected url \<rparr>"

definition loop_result ::
  "(nat \<Rightarrow> int \<Rightarrow> create_result) \<Rightarrow> jsstring list \<Rightarrow> jsstring option \<Rightarrow> nat \<Rightarrow> int
   \<Rightarrow> generated list \<Rightarrow> jsstring + generated list \<Rightarrow> bool" where
  "loop_result backend selected url k i vs r =
     (case r of
        Inl e \<Rightarrow> \<exists>k' i' m. k \<le> k' \<and> backend k' i' = Throws m \<and> e = generation_failed_prefix @ m
      | Inr res \<Rightarrow>
          \<exists>news. res = vs @ news \<and> length news = nat (3 - i)
            \<and> (\<forall>j < nat (3 - i). \<exists>k' out. k \<le> k' \<and> backend k' (i + int j) = Responds out
                   \<and> trim (extract_text out []) \<noteq> []
                   \<and> news ! j = made_variation selected url out))"

section \<open>The client orchestrator\<close>

text \<open>
  The component \<^verbatim>\<open>ContentStreamingDisplay\<close>.  Its React state is a record; every
  \<^verbatim>\<open>setX(v)\<close> is an update of the field.  The component's callbacks are closures of
  the render in which the effect started the run: \<^verbatim>\<open>generateVariation\<close>, the
  \<^verbatim>\<open>onmessage\<close> handlers it installs, \<^verbatim>\<open>handleVariationError\<close> and
  \<^verbatim>\<open>finishAllVariations\<close> all read the constants \<^verbatim>\<open>streamedContents\<close> and
  \<^verbatim>\<open>completedVariations\<close> of that render, not the current state (only
  \<^verbatim>\<open>setVariationStates\<close> is called with an updater function \<^verbatim>\<open>prev => ...\<close>).
  These captured values and the props are the record \<open>closure\<close>: \<open>snapshot\<close> is the
  captured \<^verbatim>\<open>streamedContents\<close>, \<open>completed_snapshot\<close> the captured
  \<^verbatim>\<open>completedVariations\<close>, \<open>scraped_title\<close> is \<^verbatim>\<open>scrapedContent?.title\<close>,
  \<open>request_url\<close> is \<^verbatim>\<open>apiRequest?.blog_url\<close>.
\<close>

record closure =
  snapshot :: "jsstring list"
  completed_snapshot :: "bool list"
  scraped_title :: "jsstring option"
  selectedImages :: "jsstring list"
  request_url :: "jsstring option"

datatype status = Pending | Loading | Complete | Error

text \<open>
  \<open>progress\<close> is a JavaScript number; the only non-integer values come from
  \<^verbatim>\<open>60 + accumulatedText.length / 15\<close>, modelled as a rational.
\<close>

record variation_state =
  status :: status
  progress :: rat

datatype source = NoSource | Open | Closed

text \<open>
  The state: the React state fields (\<^verbatim>\<open>progressText\<close>, which is display text only,
  is left out), the three \<^verbatim>\<open>eventSourceRefs\<close>, the local \<^verbatim>\<open>accumulatedText\<close> of
  the call of \<^verbatim>\<open>generateVariation\<close> for each index, the pending \<^verbatim>\<open>setTimeout\<close>
  callbacks (each is \<^verbatim>\<open>generateVariation(j)\<close>, recorded as \<open>j\<close>), and the calls made to
  the two callbacks of the parent, in order.
\<close>

record orchestrator =
  streamedContents :: "jsstring list"
  completedVariations :: "bool list"
  variationStates :: "variation_state list"
  isLoading :: bool
  error :: "jsstring option"
  warning :: "jsstring option"
  progressStage :: nat
  eventSourceRefs :: "source list"
  accumulatedText :: "jsstring list"
  timers :: "nat list"
  onStreamComplete :: "generated list list"
  onStreamError :: "jsstring list"

text \<open>
  The literals of the component: the label "variation " (with its space) that starts
  the fallback content and the error text; the text after the number in the fallback
  content (" generation failed." and two line feeds); the default for a missing title
  ("this article"); the end of the fallback content ("for information about ... see
  the original article."); the text after the number in the error text; the default
  warning; the message of an event-source error; and the cancellation message
  ("streaming was cancelled").
\<close>

definition variation_label :: jsstring where
  "variation_label = [12496, 12522, 12456, 12540, 12471, 12519, 12531, 32]"

definition generation_failed_text :: jsstring where
  "generation_failed_text = [32, 12398, 29983, 25104, 12395, 22833, 25943, 12375, 12414,
     12375, 12383, 12290, 10, 10]"

definition this_article :: jsstring where
  "this_article = [12371, 12398, 35352, 20107]"

definition see_original_text :: jsstring where
  "see_original_text = [12395, 12388, 12356, 12390, 12398, 24773, 22577, 12399, 20803,
     12398, 35352, 20107, 12434, 12372, 35239, 12367, 12384, 12373, 12356, 12290]"

definition error_during_text :: jsstring where
  "error_during_text = [32, 12398, 29983, 25104, 20013, 12395, 12456, 12521, 12540, 12364,
     30330, 29983, 12375, 12414, 12375, 12383, 58, 32]"

definition default_warning :: jsstring where
  "default_warning = [12473, 12463, 12524, 12452, 12500, 12531, 12464, 20013, 12395, 21839,
     38988, 12364, 30330, 29983, 12375, 12414, 12375, 12383, 12364, 12289, 20966, 29702,
     12434, 32154, 34892, 12375, 12414, 12377]"

definition streaming_failed_text :: jsstring where
  "streaming_failed_text = [12473, 12488, 12522, 12540, 12511, 12531, 12464, 20013, 12395,
     12456, 12521, 12540, 12364, 30330, 29983, 12375, 12414, 12375, 12383]"

definition cancelled_text :: jsstring where
  "cancelled_text = [12473, 12488, 12522, 12540, 12511, 12531, 12464, 12364, 12461, 12515,
     12531, 12475, 12523, 12373, 12428, 12414, 12375, 12383]"

text \<open>
  The fallback content of \<^verbatim>\<open>handleVariationError\<close>:
  \<^verbatim>\<open>`<variation_label>${index + 1}<generation_failed_text>${scrapedContent?.title || <this_article>}<see_original_text>`\<close>.
\<close>

definition fallbackContent :: "closure \<Rightarrow> nat \<Rightarrow> jsstring" where
  "fallbackContent P index =
     variation_label @ decimal (index + 1) @ generation_failed_text
       @ or_else (scraped_title P) this_article @ see_original_text"

text \<open>
  \<^verbatim>\<open>finishAllVariations\<close>: the result is mapped from the captured
  \<^verbatim>\<open>streamedContents\<close>.
\<close>

definition aggregate :: "closure \<Rightarrow> generated list" where
  "aggregate P =
     map (\<lambda>c. \<lparr> g_content = c,
                 g_markdown = formatAsMarkdown c (selectedImages P) (request_url P) \<rparr>)
       (snapshot P)"

definition finishAllVariations :: "closure \<Rightarrow> orchestrator \<Rightarrow> orchestrator" where
  "finishAllVariations P s =
     s\<lparr> isLoading := False, progressStage := 100,
        onStreamComplete := onStreamComplete s @ [aggregate P] \<rparr>"

text \<open>
  \<^verbatim>\<open>generateVariation(index)\<close>.  The array writes \<^verbatim>\<open>a[index] = v\<close> of the component
  all happen under this function's guard \<^verbatim>\<open>index >= 3\<close>, on arrays of three elements,
  so they are in range and are list updates.
\<close>

definition generateVariation :: "closure \<Rightarrow> nat \<Rightarrow> orchestrator \<Rightarrow> orchestrator" where
  "generateVariation P index s =
     (if index \<ge> 3 then finishAllVariations P s
      else s\<lparr> variationStates :=
                 (variationStates s)[index := \<lparr> status = Loading, progress = 5 \<rparr>],
               eventSourceRefs := (eventSourceRefs s)[index := Open],
               accumulatedText := (accumulatedText s)[index := [] ] \<rparr>)"

definition updateVariationProgress :: "nat \<Rightarrow> rat \<Rightarrow> orchestrator \<Rightarrow> orchestrator" where
  "updateVariationProgress index p s =
     s\<lparr> variationStates :=
          (variationStates s)[index := (variationStates s ! index)\<lparr> progress := p \<rparr>] \<rparr>"

definition close_source :: "source \<Rightarrow> source" where
  "close_source es = (case es of NoSource \<Rightarrow> NoSource | _ \<Rightarrow> Closed)"

definition handleVariationError ::
  "closure \<Rightarrow> nat \<Rightarrow> jsstring \<Rightarrow> orchestrator \<Rightarrow> orchestrator" where
  "handleVariationError P index errorMessage s =
     s\<lparr> variationStates := (variationStates s)[index := \<lparr> status = Error, progress = 0 \<rparr>],
        error := Some (variation_label @ decimal (index + 1) @ error_during_text @ errorMessage),
        eventSourceRefs := (eventSourceRefs s)[index := close_source (eventSourceRefs s ! index)],
        streamedContents := (snapshot P)[index := fallbackContent P index],
        completedVariations := (completed_snapshot P)[index := True],
        timers := timers s @ [index + 1] \<rparr>"

text \<open>
  What \<^verbatim>\<open>event.data\<close> of a message is: the sentinel text \<^verbatim>\<open>[DONE]\<close>, a JSON text
  of an event, or a text on which \<^verbatim>\<open>JSON.parse\<close> (or reading the parsed value)
  throws; the handler catches that and logs it.
\<close>

datatype message = Sentinel | Json event | Unparseable

fun deliver :: "sse \<Rightarrow> message" where
  "deliver Done = Sentinel"
| "deliver (Data e) = Json e"

text \<open>The \<^verbatim>\<open>onmessage\<close> handler that \<^verbatim>\<open>generateVariation(index)\<close> installs.\<close>

definition onmessage :: "closure \<Rightarrow> nat \<Rightarrow> message \<Rightarrow> orchestrator \<Rightarrow> orchestrator" where
  "onmessage P index m s =
     (case m of
        Sentinel \<Rightarrow>
          s\<lparr> eventSourceRefs := (eventSourceRefs s)[index := Closed],
             completedVariations := (completed_snapshot P)[index := True],
             variationStates :=
               (variationStates s)[index := \<lparr> status = Complete, progress = 100 \<rparr>],
             timers := timers s @ [index + 1] \<rparr>
      | Unparseable \<Rightarrow> s
      | Json data \<Rightarrow>
          (case data of
             ProcessStart \<Rightarrow> updateVariationProgress index 10 s
           | ScrapedContent t n k \<Rightarrow> updateVariationProgress index 20 s
           | ScrapingWarning w \<Rightarrow>
               updateVariationProgress index 25
                 (s\<lparr> warning := Some (or_else (Some w) default_warning) \<rparr>)
           | VariationInfo i \<Rightarrow> updateVariationProgress index 30 s
           | GenerationStarting \<Rightarrow> updateVariationProgress index 35 s
           | BackendEvent ResponseCreated \<Rightarrow> updateVariationProgress index 40 s
           | BackendEvent ResponseInProgress \<Rightarrow> updateVariationProgress index 50 s
           | BackendEvent WebSearchCall \<Rightarrow> updateVariationProgress index 60 s
           | BackendEvent (OutputTextDelta delta) \<Rightarrow>
               (let acc = accumulatedText s ! index @ delta
                in updateVariationProgress index (min (60 + of_nat (length acc) / 15) 95)
                     (s\<lparr> accumulatedText := (accumulatedText s)[index := acc],
                         streamedContents := (snapshot P)[index := acc] \<rparr>))
           | BackendEvent OutputTextDone \<Rightarrow> updateVariationProgress index 98 s
           | VariationComplete i \<Rightarrow> updateVariationProgress index 100 s
           | ErrorEvent e \<Rightarrow> handleVariationError P index e s
           | _ \<Rightarrow> s))"

definition handleCancelStream :: "orchestrator \<Rightarrow> orchestrator" where
  "handleCancelStream s =
     s\<lparr> eventSourceRefs := map close_source (eventSourceRefs s),
        isLoading := False,
        onStreamError := onStreamError s @ [cancelled_text] \<rparr>"

text \<open>
  The effect that starts a run (\<^verbatim>\<open>isStreaming && apiRequest && scrapedContent\<close>), from
  the state of a mounted component with no event source and no timer.
\<close>

definition start :: "closure \<Rightarrow> orchestrator" where
  "start P =
     generateVariation P 0
       \<lparr> streamedContents = [ [], [], [] ],
         completedVariations = [False, False, False],
         variationStates = [\<lparr> status = Pending, progress = 0 \<rparr>,
                            \<lparr> status = Pending, progress = 0 \<rparr>,
                            \<lparr> status = Pending, progress = 0 \<rparr>],
         isLoading = True, error = None, warning = None, progressStage = 0,
         eventSourceRefs = [NoSource, NoSource, NoSource],
         accumulatedText = [ [], [], [] ],
         timers = [], onStreamComplete = [], onStreamError = [] \<rparr>"

text \<open>
  What can happen next.  An event source that is not open delivers nothing; a timer
  fires only if it is pending, the oldest first (all have the same delay); the cancel
  button is rendered only while \<^verbatim>\<open>isLoading\<close>.  An input that cannot happen in a state
  leaves it unchanged.
\<close>

datatype input =
    Message nat message
  | SourceError nat
  | Timeout
  | Cancel

definition step :: "closure \<Rightarrow> input \<Rightarrow> orchestrator \<Rightarrow> orchestrator" where
  "step P inp s =
     (case inp of
        Message index m \<Rightarrow>
          if index < 3 \<and> eventSourceRefs s ! index = Open then onmessage P index m s else s
      | SourceError index \<Rightarrow>
          if index < 3 \<and> eventSourceRefs s ! index = Open
          then handleVariationError P index streaming_failed_text s else s
      | Timeout \<Rightarrow>
          (case timers s of
             [] \<Rightarrow> s
           | j # pending \<Rightarrow> generateVariation P j (s\<lparr> timers := pending \<rparr>))
      | Cancel \<Rightarrow> if isLoading s then handleCancelStream s else s)"

fun run :: "closure \<Rightarrow> input list \<Rightarrow> orchestrator \<Rightarrow> orchestrator" where
  "run P [] s = s"
| "run P (inp # inps) s = run P inps (step P inp s)"

text \<open>The closure of the first run of a mounted component, for an article title.\<close>

definition mounted :: "jsstring option \<Rightarrow> jsstring list \<Rightarrow> jsstring option \<Rightarrow> closure" where
  "mounted t imgs url =
     \<lparr> snapshot = [ [], [], [] ], completed_snapshot = [False, False, False],
       scraped_title = t, selectedImages = imgs, request_url = url \<rparr>"

definition progress_of :: "orchestrator \<Rightarrow> nat \<Rightarrow> rat" where
  "progress_of s index = progress (variationStates s ! index)"

definition status_of :: "orchestrator \<Rightarrow> nat \<Rightarrow> status" where
  "status_of s index = status (variationStates s ! index)"

text \<open>
  The orchestrator waits on session \<open>index\<close>: its event source is open, no timer is
  pending, and the run is still loading.
\<close>

definition waiting_on :: "orchestrator \<Rightarrow> nat \<Rightarrow> bool" where
  "waiting_on s index =
     (index < 3 \<and> length (eventSourceRefs s) = 3 \<and> eventSourceRefs s ! index = Open
      \<and> timers s = [] \<and> isLoading s)"

text \<open>
  An input that ends session \<open>index\<close> (the sentinel, an \<open>error\<close> event, or an error of
  the event source), and a message of the session that does not end it.
\<close>

fun terminal :: "nat \<Rightarrow> input \<Rightarrow> bool" where
  "terminal index (Message j Sentinel) = (j = index)"
| "terminal index (Message j (Json (ErrorEvent e))) = (j = index)"
| "terminal index (SourceError j) = (j = index)"
| "terminal index inp = False"

fun quiet :: "nat \<Rightarrow> input \<Rightarrow> bool" where
  "quiet index (Message j Sentinel) = False"
| "quiet index (Message j (Json (ErrorEvent e))) = False"
| "quiet index (Message j m) = (j = index)"
| "quiet index inp = False"

text \<open>The messages of a channel, delivered to the event source of session \<open>index\<close>.\<close>

definition feed :: "nat \<Rightarrow> sse list \<Rightarrow> input list" where
  "feed index ch = map (\<lambda>m. Message index (deliver m)) ch"

definition deltas :: "nat \<Rightarrow> jsstring list \<Rightarrow> input list" where
  "deltas index ds = map (\<lambda>d. Message index (Json (BackendEvent (OutputTextDelta d)))) ds"

text \<open>A mounted component for the article title \<^verbatim>\<open>Example Post\<close>.\<close>

definition example_post :: closure where
  "example_post = mounted (Some [69, 120, 97, 109, 112, 108, 101, 32, 80, 111, 115, 116]) [] None"

text \<open>Every stored progress value lies between 0 and 100.\<close>

definition progress_in_range :: "variation_state list \<Rightarrow> bool" where
  "progress_in_range vs = (\<forall>v \<in> set vs. 0 \<le> progress v \<and> progress v \<le> 100)"

section \<open>Properties\<close>

lemma images_loop_append:
  "i \<le> length imgs \<Longrightarrow>
   images_loop imgs i md =
     md @ concat (map (\<lambda>(k, url). image_ref k url) (List.enumerate (Suc i) (drop i imgs)))"
proof (induction imgs i md rule: images_loop.induct)
  case (1 imgs i md)
  show ?case
  proof (cases "i < length imgs")
    case True
    have d: "drop i imgs = imgs ! i # drop (Suc i) imgs"
      using True by (simp add: Cons_nth_drop_Suc)
    have "images_loop imgs i md = images_loop imgs (Suc i) (md @ image_ref (i + 1) (imgs ! i))"
      using True by (subst images_loop.simps) simp
    also have "\<dots> = (md @ image_ref (i + 1) (imgs ! i)) @
        concat (map (\<lambda>(k, url). image_ref k url)
                  (List.enumerate (Suc (Suc i)) (drop (Suc i) imgs)))"
      using "1.IH" [OF True] True by simp
    finally show ?thesis
      by (simp add: d)
  next
    case False
    with "1.prems" have "i = length imgs" by simp
    then show ?thesis
      by (subst images_loop.simps) simp
  qed
qed

lemma images_loop_spec: "images_loop imgs 0 c = c @ image_refs imgs"
  using images_loop_append [of 0 imgs c] by (simp add: image_refs_def)

text \<open>
  C9.  For every content \<open>c\<close>, list of selected images \<open>imgs\<close> and optional source URL
  \<open>u\<close>, both markdown formatters return \<open>c\<close>, followed by one numbered image reference
  per element of \<open>imgs\<close> in selection order, followed by the source link when a URL is
  provided (a URL that is the empty string is falsy and counts as not provided); with no
  images and no URL the markdown is \<open>c\<close> unchanged.
\<close>

theorem formatAsMarkdown_spec:
  "formatAsMarkdown c imgs u = markdown_spec c imgs u
   \<and> formatAsMarkdown_generator c imgs u = markdown_spec c imgs u
   \<and> formatAsMarkdown c imgs (Some (x # url)) = c @ image_refs imgs @ source_link (x # url)
   \<and> formatAsMarkdown c [] None = c"
  by (cases u)
     (simp_all add: formatAsMarkdown_def formatAsMarkdown_generator_def markdown_spec_def
        link_part_def images_loop_spec image_refs_def)

theorem formatAsMarkdown_spec_witness:
  "formatAsMarkdown [72, 105] [ [97], [98] ] (Some [117])
     = [72, 105] @ image_open @ [49, 93, 40, 97, 41] @ image_open @ [50, 93, 40, 98, 41]
       @ link_open @ [117, 41]
   \<and> formatAsMarkdown [72, 105] [] None = [72, 105]"
  using formatAsMarkdown_spec [of "[72, 105]" "[ [97], [98] ]" "Some [117]" 117 "[]"]
        formatAsMarkdown_spec [of "[72, 105]" "[]" None 117 "[]"]
  by (simp add: markdown_spec_def image_refs_def image_ref_def source_link_def link_part_def
        decimal.simps)

text \<open>
  C10.  For every fetched page, \<open>_extractTitle\<close> returns a non-empty string: the trimmed
  \<open>h1\<close> text if that is non-empty, else the trimmed title-class text if that is non-empty,
  else the trimmed \<open>title\<close> tag text if that is non-empty, else the fallback literal; hence
  an article that \<open>scrape\<close> returns from a fetched page has a non-empty title.
\<close>

theorem extractTitle_nonempty:
  "extractTitle p \<noteq> []
   \<and> extractTitle p =
       (if trim (h1_text p) \<noteq> [] then trim (h1_text p)
        else if trim (class_text p) \<noteq> [] then trim (class_text p)
        else if trim (title_text p) \<noteq> [] then trim (title_text p)
        else title_unknown)
   \<and> scrape (Fetched p) second fb = Inr (parse_page p)
   \<and> scrape (AxiosFail st msg) (Fetched p) fb = Inr (parse_page p)
   \<and> scrape (OtherFail msg) (Fetched p) fb = Inr (parse_page p)
   \<and> scrape_v1 (Fetched p) = Inr (parse_page p)
   \<and> title (parse_page p) \<noteq> []"
  by (simp add: extractTitle_def Let_def title_unknown_def scrape_def scrape_v1_def
        parse_page_def)

theorem extractTitle_nonempty_witness:
  "extractTitle \<lparr> h1_text = [32, 10], class_text = [], title_text = [32, 72, 105, 32],
                   page_content = [], page_images = [] \<rparr> = [72, 105]
   \<and> extractTitle \<lparr> h1_text = [], class_text = [], title_text = [12288],
                     page_content = [], page_images = [] \<rparr> = title_unknown"
  using extractTitle_nonempty [of "\<lparr> h1_text = [32, 10], class_text = [],
          title_text = [32, 72, 105, 32], page_content = [], page_images = [] \<rparr>"]
        extractTitle_nonempty [of "\<lparr> h1_text = [], class_text = [], title_text = [12288],
          page_content = [], page_images = [] \<rparr>"]
  by (simp add: trim_def is_ws_def)

subsection \<open>The stream relay\<close>

lemma count_Done_map_Data: "count_list (map Data xs) Done = 0"
  by (induction xs) simp_all

lemma relay_generation_sentinel:
  "count_list (relay_generation C w v sel sc) Done = 1
   \<and> last (relay_generation C w v sel sc) = Done"
  by (simp add: relay_generation_def count_Done_map_Data split: prod.splits option.splits)

lemma relay_generation_nonempty: "relay_generation C w v sel sc \<noteq> []"
  by (simp add: relay_generation_def split: prod.splits option.splits)

lemma generator_no_scrape_events:
  "generateLineContentStream w e v sel b = (chunks, r) \<Longrightarrow>
   \<not> list_ex is_scraped_content (map Data chunks) \<and> \<not> list_ex is_scraping_warning (map Data chunks)"
  by (auto simp: generateLineContentStream_def Let_def list_ex_iff
        split: backend_result.splits option.splits sum.splits if_splits)

lemma relay_generation_no_scrape_events:
  "\<not> list_ex is_scraped_content (relay_generation C w v sel sc)
   \<and> \<not> list_ex is_scraping_warning (relay_generation C w v sel sc)"
proof (cases "generateLineContentStream w (enhance C (title sc)) v sel (createStream C sc v)")
  case (Pair chunks r)
  from generator_no_scrape_events [OF Pair] Pair show ?thesis
    by (cases r) (simp_all add: relay_generation_def)
qed

text \<open>
  C1, as the code has it.  A GET request whose \<open>requestData\<close> parses, with an API key,
  puts the sentinel on the channel exactly once, as the last message, and ends the
  response, when the scraper succeeds, and also when the scraper throws and the request
  has a string \<open>blog_url\<close> and a \<open>selected_images\<close> that is not \<open>null\<close>; this includes a
  generator that throws.  The three guards (request data missing, request data that
  does not parse, no API key) write one \<open>error\<close> event and end the response without the
  sentinel.
\<close>

theorem relay_sentinel_once:
  "(truthy key \<and> ((\<exists>a. scrape_url C (blog_url rd) = Inr a)
                   \<or> ((\<exists>u. blog_url rd = Value u) \<and> selected_images rd \<noteq> Null)) \<longrightarrow>
      count_list (channel (handler_stream C GET (RequestData rd) v key)) Done = 1
      \<and> last (channel (handler_stream C GET (RequestData rd) v key)) = Done
      \<and> closed (handler_stream C GET (RequestData rd) v key))
   \<and> channel (handler_stream C GET NoRequestData v key) = [Data (ErrorEvent msg_no_request_data)]
   \<and> closed (handler_stream C GET NoRequestData v key)
   \<and> channel (handler_stream C GET (BadJson m) v key)
        = [Data (ErrorEvent (streaming_error_prefix @ m))]
   \<and> closed (handler_stream C GET (BadJson m) v key)
   \<and> (\<not> truthy key \<longrightarrow>
        channel (handler_stream C GET (RequestData rd) v key) = [Data (ErrorEvent msg_no_api_key)]
        \<and> closed (handler_stream C GET (RequestData rd) v key))"
  by (auto simp: handler_stream_def channel_def closed_def Let_def relay_generation_sentinel
        relay_generation_nonempty dummy_content_def with_default_def
        split: sum.splits option.splits field.splits)

theorem relay_sentinel_once_witness:
  "count_list (channel (handler_stream failing_scraper GET (RequestData a_request) None a_key)) Done = 1
   \<and> last (channel (handler_stream failing_scraper GET (RequestData a_request) None a_key)) = Done
   \<and> channel (handler_stream failing_scraper GET (RequestData a_request) None None)
        = [Data (ErrorEvent msg_no_api_key)]"
  using relay_sentinel_once [of a_key failing_scraper a_request None "[]"]
        relay_sentinel_once [of None failing_scraper a_request None "[]"]
  by (simp add: a_key_def a_request_def)

text \<open>
  A GET request without \<open>requestData\<close>: the channel carries one \<open>error\<close> event and no
  sentinel, and is closed.
\<close>

theorem relay_sentinel_counterexample:
  "count_list (channel (handler_stream failing_scraper GET NoRequestData None a_key)) Done = 0
   \<and> closed (handler_stream failing_scraper GET NoRequestData None a_key)"
  by (simp add: handler_stream_def channel_def closed_def Let_def)

text \<open>
  Outside the two amended claims: when the scraper throws and \<open>selected_images\<close> is
  \<open>null\<close> (or the URL is absent or \<open>null\<close>), the scraping \<^verbatim>\<open>catch\<close> block itself throws;
  the outer \<^verbatim>\<open>catch\<close> writes an \<open>error\<close> event and ends the response, with no
  \<open>scraping_warning\<close> and no sentinel.
\<close>

lemma relay_error_in_catch:
  "channel (handler_stream failing_scraper GET
      (RequestData (a_request\<lparr>selected_images := Null\<rparr>)) None a_key)
     = [Data ProcessStart,
        Data (ErrorEvent (streaming_error_prefix @ type_error null_text length_name))]
   \<and> channel (handler_stream failing_scraper GET
      (RequestData (a_request\<lparr>blog_url := Absent\<rparr>)) None a_key)
     = [Data ProcessStart,
        Data (ErrorEvent (streaming_error_prefix @ type_error undefined_text split_name))]
   \<and> closed (handler_stream failing_scraper GET
      (RequestData (a_request\<lparr>selected_images := Null\<rparr>)) None a_key)"
  by (simp add: handler_stream_def channel_def closed_def Let_def a_request_def a_key_def
        failing_scraper_def dummy_content_def with_default_def)

text \<open>
  With a scraper that succeeds, a \<open>null\<close> \<open>selected_images\<close> makes the generator throw
  when it builds the prompt; the relay writes that as an \<open>error\<close> event and then the
  sentinel.
\<close>

lemma relay_null_images_generation:
  "channel (handler_stream working_scraper GET
      (RequestData (a_request\<lparr>selected_images := Null\<rparr>)) None a_key)
     = [Data ProcessStart, Data (ScrapedContent [70] 60 0), Data (VariationInfo 0),
        Data GenerationStarting, Data WebSearchComplete,
        Data (ErrorEvent (generation_error_prefix @ type_error null_text length_name)), Done]"
  by (simp add: handler_stream_def channel_def Let_def a_request_def a_key_def
        working_scraper_def fetched_article_def pad_short_content_def with_default_def
        web_search_flag_def index_or_zero_def relay_generation_def
        generateLineContentStream_def)

text \<open>
  C7, as the code has it.  For a GET request that parses, with an API key: when the
  scraper throws and the request has a string \<open>blog_url\<close> and a \<open>selected_images\<close> that
  is not \<open>null\<close>, the relay builds the article from the request (the title from the last
  segment of the URL, a fixed content, the selected images), writes \<open>scraping_warning\<close>
  with the failure message and no \<open>scraped_content\<close>, and goes on: it writes
  \<open>variation_info\<close> and \<open>generation_starting\<close> and relays the generation from that
  article up to the sentinel.  When the scraper returns a content that is empty or
  shorter than 50 code units, the relay appends the text derived from the URL to the
  content, writes \<open>scraped_content\<close> and no \<open>scraping_warning\<close>, and relays the
  generation from the padded article.
\<close>

theorem relay_scrape_recovery:
  "(truthy key \<and> blog_url rd = Value u \<and> selected_images rd \<noteq> Null
      \<and> scrape_url C (Value u) = Inl e \<longrightarrow>
      channel (handler_stream C GET (RequestData rd) v key)
        = [Data ProcessStart, Data (ScrapingWarning (scraping_warning_prefix @ e)),
           Data (VariationInfo (index_or_zero v)), Data GenerationStarting]
          @ relay_generation C (web_search_flag rd) (index_or_zero v)
              (with_default [] (selected_images rd))
              \<lparr> title = or_else (Some (last_segment u)) default_title,
                content = unparsed_content,
                images = (case selected_images rd of Value l \<Rightarrow> l | _ \<Rightarrow> []) \<rparr>
      \<and> channel (handler_stream C GET (RequestData rd) v key) ! 1
        = Data (ScrapingWarning (scraping_warning_prefix @ e))
      \<and> \<not> list_ex is_scraped_content (channel (handler_stream C GET (RequestData rd) v key))
      \<and> generated_from (handler_stream C GET (RequestData rd) v key)
          = [\<lparr> title = or_else (Some (last_segment u)) default_title,
               content = unparsed_content,
               images = (case selected_images rd of Value l \<Rightarrow> l | _ \<Rightarrow> []) \<rparr>]
      \<and> last (channel (handler_stream C GET (RequestData rd) v key)) = Done)
   \<and> (truthy key \<and> scrape_url C (blog_url rd) = Inr sc
        \<and> (content sc = [] \<or> length (content sc) < 50) \<longrightarrow>
      channel (handler_stream C GET (RequestData rd) v key)
        = [Data ProcessStart,
           Data (ScrapedContent (title sc)
             (length (or_else (Some (content sc)) insufficient_content @ [10, 10]
                        @ to_text (blog_url rd) @ based_on_suffix))
             (length (images sc))),
           Data (VariationInfo (index_or_zero v)), Data GenerationStarting]
          @ relay_generation C (web_search_flag rd) (index_or_zero v)
              (with_default [] (selected_images rd))
              (sc\<lparr>content := or_else (Some (content sc)) insufficient_content @ [10, 10]
                                  @ to_text (blog_url rd) @ based_on_suffix\<rparr>)
      \<and> channel (handler_stream C GET (RequestData rd) v key) ! 1
        = Data (ScrapedContent (title sc)
            (length (or_else (Some (content sc)) insufficient_content @ [10, 10]
                       @ to_text (blog_url rd) @ based_on_suffix))
            (length (images sc)))
      \<and> \<not> list_ex is_scraping_warning (channel (handler_stream C GET (RequestData rd) v key))
      \<and> generated_from (handler_stream C GET (RequestData rd) v key)
          = [sc\<lparr>content := or_else (Some (content sc)) insufficient_content @ [10, 10]
                               @ to_text (blog_url rd) @ based_on_suffix\<rparr>]
      \<and> last (channel (handler_stream C GET (RequestData rd) v key)) = Done)"
  by (auto simp: handler_stream_def channel_def generated_from_def Let_def
        relay_generation_sentinel relay_generation_nonempty relay_generation_no_scrape_events
        pad_short_content_def dummy_content_def with_default_def
        split: sum.splits option.splits field.splits)

theorem relay_scrape_recovery_witness:
  "channel (handler_stream failing_scraper GET (RequestData a_request) None a_key) ! 1
     = Data (ScrapingWarning (scraping_warning_prefix @ [102, 97, 105, 108]))
   \<and> generated_from (handler_stream failing_scraper GET (RequestData a_request) None a_key)
     = [\<lparr> title = [97], content = unparsed_content, images = [] \<rparr>]
   \<and> generated_from (handler_stream short_scraper GET (RequestData a_request) None a_key)
     = [\<lparr> title = [84], content = [72, 105, 10, 10, 104, 47, 97] @ based_on_suffix, images = [] \<rparr>]"
  using relay_scrape_recovery [of a_key a_request "[104, 47, 97]" failing_scraper "[102, 97, 105, 108]" None short_article]
        relay_scrape_recovery [of a_key a_request "[104, 47, 97]" short_scraper "[102, 97, 105, 108]" None short_article]
  by (simp add: a_key_def a_request_def failing_scraper_def short_scraper_def short_article_def
        last_segment_def or_else_def to_text_def)

text \<open>
  The scraper returns a content of two code units: the relay writes \<open>scraped_content\<close>
  and no \<open>scraping_warning\<close>.
\<close>

theorem relay_short_content_counterexample:
  "list_ex is_scraped_content (channel (handler_stream short_scraper GET (RequestData a_request) None a_key))
   \<and> \<not> list_ex is_scraping_warning
         (channel (handler_stream short_scraper GET (RequestData a_request) None a_key))"
  by (simp add: handler_stream_def channel_def a_key_def a_request_def short_scraper_def
        short_article_def pad_short_content_def relay_generation_no_scrape_events Let_def)

text \<open>
  C8 at a failing input.  The request carries a pre-scraped article with a non-empty
  title and a content of 60 code units.  The POST handler uses that article and does not
  call the scraper; the stream relay calls the scraper all the same and generates from
  what the scraper returns.
\<close>

theorem relay_ignores_prescraped:
  "resolve_content_post working_scraper (a_request\<lparr>scraped_content := Value prescraped_article\<rparr>)
     = (Inr prescraped_article, [])
   \<and> scraper_calls (handler_stream working_scraper GET
         (RequestData (a_request\<lparr>scraped_content := Value prescraped_article\<rparr>)) None a_key)
     = [Value [104, 47, 97] ]
   \<and> generated_from (handler_stream working_scraper GET
         (RequestData (a_request\<lparr>scraped_content := Value prescraped_article\<rparr>)) None a_key)
     = [fetched_article]"
  by (simp add: resolve_content_post_def handler_stream_def scraper_calls_def generated_from_def
        a_request_def a_key_def working_scraper_def prescraped_article_def fetched_article_def
        pad_short_content_def Let_def)

subsection \<open>The retry on an empty result\<close>


lemma variations_loop_returns_only_if:
  assumes ret: "variations_loop backend selected url k i vs = Some r"
    and emp: "\<forall>k i. empty_result (backend k i)"
  shows "\<not> i < 3"
proof -
  have "(\<forall>k i. empty_result (backend k i)) \<longrightarrow> \<not> i < 3"
  proof (rule variations_loop.raw_induct
      [where P = "\<lambda>b (s :: jsstring list) (u :: jsstring option) (k :: nat) (i :: int)
                    (vs :: generated list) (r :: jsstring + generated list).
                    (\<forall>k i. empty_result (b k i)) \<longrightarrow> \<not> i < 3", OF _ ret])
    fix f and b :: "nat \<Rightarrow> int \<Rightarrow> create_result" and s :: "jsstring list"
      and u :: "jsstring option" and k :: nat and i :: int and vs :: "generated list"
      and r :: "jsstring + generated list"
    assume IH: "\<And>b s u k i vs r. f b s u k i vs = Some r \<Longrightarrow>
                  (\<forall>k i. empty_result (b k i)) \<longrightarrow> \<not> i < 3"
      and step: "(if i < 3
        then case b k i of
             Throws m \<Rightarrow> Some (Inl (generation_failed_prefix @ m))
           | Responds output \<Rightarrow>
               let c = extract_text output []
               in if length (trim c) = 0
                  then f b s u (Suc k) (i - 1 + 1) vs
                  else f b s u (Suc k) (i + 1)
                        (vs @ [\<lparr>g_content = c, g_markdown = formatAsMarkdown_generator c s u\<rparr>])
        else Some (Inr vs)) = Some r"
    show "(\<forall>k i. empty_result (b k i)) \<longrightarrow> \<not> i < 3"
    proof (intro impI notI)
      assume e: "\<forall>k i. empty_result (b k i)" and lt: "i < 3"
      from e have "empty_result (b k i)" by blast
      then obtain out where o: "b k i = Responds out" and t: "trim (extract_text out []) = []"
        by (cases "b k i") (simp_all add: empty_result_def)
      from step lt o t have "f b s u (Suc k) i vs = Some r"
        by (simp add: Let_def)
      from IH [OF this] e lt show False by blast
    qed
  qed
  with emp show ?thesis by blast
qed

lemma variations_loop_returns:
  assumes fin: "\<forall>k\<ge>N. \<forall>i. \<not> empty_result (backend k i)"
  shows "\<exists>r. variations_loop backend selected url k i vs = Some r"
proof (induction "(N - k) + nat (3 - i)" arbitrary: k i vs rule: less_induct)
  case less
  show ?case
  proof (cases "i < 3")
    case False
    then show ?thesis by (subst variations_loop.simps) simp
  next
    case lt: True
    show ?thesis
    proof (cases "backend k i")
      case (Throws m)
      with lt show ?thesis by (subst variations_loop.simps) simp
    next
      case (Responds out)
      show ?thesis
      proof (cases "trim (extract_text out []) = []")
        case True
        with Responds have "empty_result (backend k i)" by (simp add: empty_result_def)
        with fin have "k < N" by (meson not_le)
        then have "(N - Suc k) + nat (3 - i) < (N - k) + nat (3 - i)" by simp
        from less [OF this] obtain r where "variations_loop backend selected url (Suc k) i vs = Some r"
          by blast
        with lt Responds True show ?thesis by (subst variations_loop.simps) simp
      next
        case False
        from lt have "(N - Suc k) + nat (3 - (i + 1)) < (N - k) + nat (3 - i)" by simp
        from less [OF this] obtain r where
          "variations_loop backend selected url (Suc k) (i + 1)
             (vs @ [\<lparr>g_content = extract_text out [],
                      g_markdown = formatAsMarkdown_generator (extract_text out []) selected url\<rparr>])
           = Some r"
          by blast
        with lt Responds False show ?thesis by (subst variations_loop.simps) (simp add: Let_def)
      qed
    qed
  qed
qed

lemma loop_result_later:
  assumes "loop_result b s u (Suc k) i vs r"
  shows "loop_result b s u k i vs r"
proof (cases r)
  case (Inl e)
  with assms obtain k' i' m where "Suc k \<le> k'" "b k' i' = Throws m" "e = generation_failed_prefix @ m"
    unfolding loop_result_def by auto
  then have "k \<le> k' \<and> b k' i' = Throws m \<and> e = generation_failed_prefix @ m" by simp
  with Inl show ?thesis unfolding loop_result_def by auto
next
  case (Inr res)
  with assms obtain news where n: "res = vs @ news" "length news = nat (3 - i)"
    and a: "\<And>j. j < nat (3 - i) \<Longrightarrow> \<exists>k' out. Suc k \<le> k' \<and> b k' (i + int j) = Responds out
                   \<and> trim (extract_text out []) \<noteq> []
                   \<and> news ! j = made_variation s u out"
    unfolding loop_result_def by auto
  have "\<exists>k' out. k \<le> k' \<and> b k' (i + int j) = Responds out
                   \<and> trim (extract_text out []) \<noteq> []
                   \<and> news ! j = made_variation s u out" if "j < nat (3 - i)" for j
  proof -
    from a [OF that] obtain k' out where "Suc k \<le> k'" "b k' (i + int j) = Responds out"
      "trim (extract_text out []) \<noteq> []" "news ! j = made_variation s u out" by blast
    then have "k \<le> k' \<and> b k' (i + int j) = Responds out
                   \<and> trim (extract_text out []) \<noteq> []
                   \<and> news ! j = made_variation s u out" by simp
    then show ?thesis by blast
  qed
  with n Inr show ?thesis unfolding loop_result_def by simp
qed

lemma loop_result_push:
  assumes r: "loop_result b s u (Suc k) (i + 1) (vs @ [made_variation s u out]) r"
    and lt: "i < 3" and o: "b k i = Responds out" and ne: "trim (extract_text out []) \<noteq> []"
  shows "loop_result b s u k i vs r"
proof (cases r)
  case (Inl e)
  with r have "loop_result b s u (Suc k) i vs r" unfolding loop_result_def by simp
  then show ?thesis by (rule loop_result_later)
next
  case (Inr res)
  with r obtain news where n: "res = (vs @ [made_variation s u out]) @ news"
    and l: "length news = nat (3 - (i + 1))"
    and a: "\<And>j. j < nat (3 - (i + 1)) \<Longrightarrow> \<exists>k' out'. Suc k \<le> k'
                   \<and> b k' (i + 1 + int j) = Responds out'
                   \<and> trim (extract_text out' []) \<noteq> []
                   \<and> news ! j = made_variation s u out'"
    unfolding loop_result_def by auto
  let ?news = "made_variation s u out # news"
  have "\<exists>k' out'. k \<le> k' \<and> b k' (i + int j) = Responds out'
                   \<and> trim (extract_text out' []) \<noteq> []
                   \<and> ?news ! j = made_variation s u out'" if j: "j < nat (3 - i)" for j
  proof (cases j)
    case 0
    have "k \<le> k \<and> b k (i + int 0) = Responds out \<and> trim (extract_text out []) \<noteq> []
          \<and> ?news ! 0 = made_variation s u out"
      using o ne by simp
    with 0 show ?thesis by blast
  next
    case (Suc j')
    with j lt have "j' < nat (3 - (i + 1))" by simp
    from a [OF this] obtain k' out' where f: "Suc k \<le> k'" "b k' (i + 1 + int j') = Responds out'"
      "trim (extract_text out' []) \<noteq> []" "news ! j' = made_variation s u out'"
      by blast
    have e: "i + 1 + int j' = i + int j" using Suc by simp
    have "k \<le> k' \<and> b k' (i + int j) = Responds out'
          \<and> trim (extract_text out' []) \<noteq> [] \<and> ?news ! j = made_variation s u out'"
      using f Suc unfolding e by simp
    then show ?thesis by blast
  qed
  moreover have "res = vs @ ?news" using n by simp
  moreover have "length ?news = nat (3 - i)" using l lt by simp
  ultimately have "\<exists>news. res = vs @ news \<and> length news = nat (3 - i)
            \<and> (\<forall>j < nat (3 - i). \<exists>k' out. k \<le> k' \<and> b k' (i + int j) = Responds out
                   \<and> trim (extract_text out []) \<noteq> []
                   \<and> news ! j = made_variation s u out)"
    by blast
  with Inr show ?thesis unfolding loop_result_def by simp
qed

lemma variations_loop_result:
  assumes ret: "variations_loop backend selected url k i vs = Some r"
  shows "i \<le> 3 \<longrightarrow> loop_result backend selected url k i vs r"
proof (rule variations_loop.raw_induct
    [where P = "\<lambda>b s u k i vs r. i \<le> 3 \<longrightarrow> loop_result b s u k i vs r", OF _ ret])
  fix f and b :: "nat \<Rightarrow> int \<Rightarrow> create_result" and s :: "jsstring list"
    and u :: "jsstring option" and k :: nat and i :: int and vs :: "generated list"
    and r :: "jsstring + generated list"
  assume IH: "\<And>b s u k i vs r. f b s u k i vs = Some r \<Longrightarrow> i \<le> 3 \<longrightarrow> loop_result b s u k i vs r"
    and step: "(if i < 3
        then case b k i of
             Throws m \<Rightarrow> Some (Inl (generation_failed_prefix @ m))
           | Responds output \<Rightarrow>
               let c = extract_text output []
               in if length (trim c) = 0
                  then f b s u (Suc k) (i - 1 + 1) vs
                  else f b s u (Suc k) (i + 1)
                        (vs @ [\<lparr>g_content = c, g_markdown = formatAsMarkdown_generator c s u\<rparr>])
        else Some (Inr vs)) = Some r"
  show "i \<le> 3 \<longrightarrow> loop_result b s u k i vs r"
  proof
    assume le: "i \<le> 3"
    show "loop_result b s u k i vs r"
    proof (cases "i < 3")
      case False
      with le have "i = 3" by simp
      moreover from False step have "r = Inr vs" by simp
      ultimately show ?thesis by (simp add: loop_result_def)
    next
      case lt: True
      show ?thesis
      proof (cases "b k i")
        case (Throws m)
        with lt step have "r = Inl (generation_failed_prefix @ m)" by simp
        moreover have "k \<le> k \<and> b k i = Throws m
            \<and> generation_failed_prefix @ m = generation_failed_prefix @ m"
          using Throws by simp
        ultimately show ?thesis unfolding loop_result_def by (simp only: sum.case) blast
      next
        case (Responds out)
        show ?thesis
        proof (cases "trim (extract_text out []) = []")
          case True
          with lt Responds step have "f b s u (Suc k) i vs = Some r" by (simp add: Let_def)
          from IH [OF this] le have "loop_result b s u (Suc k) i vs r" by simp
          then show ?thesis by (rule loop_result_later)
        next
          case False
          from False lt Responds step
          have "f b s u (Suc k) (i + 1) (vs @ [made_variation s u out]) = Some r"
            by (simp add: Let_def made_variation_def)
          from IH [OF this] lt
          have "loop_result b s u (Suc k) (i + 1) (vs @ [made_variation s u out]) r" by simp
          then show ?thesis using lt Responds False by (rule loop_result_push)
        qed
      qed
    qed
  qed
qed

text \<open>
  C5, as the code has it.  An empty result makes the loop repeat the call for the same
  index, and nothing counts the attempts.  For a \<open>selected_images\<close> that is not \<open>null\<close>:
  \<open>generateLineContent\<close> returns for every backend whose results are empty only
  finitely often, and what it returns is the error of a call that throws, or exactly
  three variations, the one at position \<open>j\<close> built (content and markdown) from a
  non-empty result of a call made for index \<open>j\<close>; when the first call throws, its error
  is what is returned; and it does not return for a backend whose every result is
  empty.
\<close>

theorem generateLineContent_retry:
  assumes "selected \<noteq> Null"
  shows
  "((\<exists>N. \<forall>k\<ge>N. \<forall>i. \<not> empty_result (backend k i)) \<longrightarrow>
      (\<exists>r. generateLineContent backend selected url = Some r
         \<and> (case r of
              Inl e \<Rightarrow> \<exists>k i m. backend k i = Throws m \<and> e = generation_failed_prefix @ m
            | Inr vs \<Rightarrow>
                length vs = 3
                \<and> (\<forall>j < 3. \<exists>k out. backend k (int j) = Responds out
                       \<and> trim (extract_text out []) \<noteq> []
                       \<and> vs ! j =
                           \<lparr> g_content = extract_text out [],
                             g_markdown = formatAsMarkdown_generator (extract_text out [])
                               (case selected of Value l \<Rightarrow> l | _ \<Rightarrow> []) (present url) \<rparr>))))
   \<and> (backend 0 0 = Throws m \<longrightarrow>
        generateLineContent backend selected url = Some (Inl (generation_failed_prefix @ m)))
   \<and> ((\<forall>k i. empty_result (backend k i)) \<longrightarrow> generateLineContent backend selected url = None)"
proof -
  define imgs where "imgs = (case selected of Value l \<Rightarrow> l | _ \<Rightarrow> [])"
  have g: "generateLineContent backend selected url
             = variations_loop backend imgs (present url) 0 0 []"
    using assms by (cases selected) (simp_all add: generateLineContent_def with_default_def imgs_def)
  have first: "\<exists>r. generateLineContent backend selected url = Some r
         \<and> (case r of
              Inl e \<Rightarrow> \<exists>k i m. backend k i = Throws m \<and> e = generation_failed_prefix @ m
            | Inr vs \<Rightarrow>
                length vs = 3
                \<and> (\<forall>j < 3. \<exists>k out. backend k (int j) = Responds out
                       \<and> trim (extract_text out []) \<noteq> []
                       \<and> vs ! j =
                           \<lparr> g_content = extract_text out [],
                             g_markdown = formatAsMarkdown_generator (extract_text out [])
                               imgs (present url) \<rparr>))"
    if "\<exists>N. \<forall>k\<ge>N. \<forall>i. \<not> empty_result (backend k i)"
  proof -
    from that obtain N where "\<forall>k\<ge>N. \<forall>i. \<not> empty_result (backend k i)" ..
    from variations_loop_returns [OF this]
    obtain r where r: "variations_loop backend imgs (present url) 0 0 [] = Some r" by blast
    from variations_loop_result [OF r]
    have p: "loop_result backend imgs (present url) 0 0 [] r" by simp
    have "case r of
              Inl e \<Rightarrow> \<exists>k i m. backend k i = Throws m \<and> e = generation_failed_prefix @ m
            | Inr vs \<Rightarrow>
                length vs = 3
                \<and> (\<forall>j < 3. \<exists>k out. backend k (int j) = Responds out
                       \<and> trim (extract_text out []) \<noteq> []
                       \<and> vs ! j =
                           \<lparr> g_content = extract_text out [],
                             g_markdown = formatAsMarkdown_generator (extract_text out [])
                               imgs (present url) \<rparr>)"
    proof (cases r)
      case (Inl e)
      with p obtain k' i' m' where "backend k' i' = Throws m'" "e = generation_failed_prefix @ m'"
        unfolding loop_result_def by auto
      with Inl show ?thesis by auto
    next
      case (Inr vs)
      with p have l: "length vs = 3"
        and a: "\<And>j. j < 3 \<Longrightarrow> \<exists>k' out. backend k' (int j) = Responds out
                   \<and> trim (extract_text out []) \<noteq> []
                   \<and> vs ! j = made_variation imgs (present url) out"
        unfolding loop_result_def by auto
      from l a Inr show ?thesis by (simp add: made_variation_def)
    qed
    with r g show ?thesis by simp
  qed
  have second: "generateLineContent backend selected url = Some (Inl (generation_failed_prefix @ m))"
    if "backend 0 0 = Throws m"
    unfolding g using that by (subst variations_loop.simps) simp
  have third: "generateLineContent backend selected url = None"
    if e: "\<forall>k i. empty_result (backend k i)"
  proof (cases "generateLineContent backend selected url")
    case (Some r)
    then have "variations_loop backend imgs (present url) 0 0 [] = Some r"
      by (simp add: g)
    from variations_loop_returns_only_if [OF this e] show ?thesis by simp
  qed simp
  from first second third show ?thesis unfolding imgs_def by blast
qed

lemma empty_twice_finite: "\<forall>k\<ge>2. \<forall>i. \<not> empty_result (empty_twice k i)"
  by (simp add: empty_twice_def empty_result_def trim_def is_ws_def)

lemma always_empty_empty: "\<forall>k i. empty_result (always_empty k i)"
  by (simp add: always_empty_def empty_result_def trim_def is_ws_def)

theorem generateLineContent_retry_witness:
  "(Absent :: jsstring list field) \<noteq> Null
   \<and> (\<exists>r. generateLineContent empty_twice Absent Absent = Some r
         \<and> (case r of
              Inl e \<Rightarrow> \<exists>k i m. empty_twice k i = Throws m \<and> e = generation_failed_prefix @ m
            | Inr vs \<Rightarrow>
                length vs = 3
                \<and> (\<forall>j < 3. \<exists>k out. empty_twice k (int j) = Responds out
                       \<and> trim (extract_text out []) \<noteq> []
                       \<and> vs ! j =
                           \<lparr> g_content = extract_text out [],
                             g_markdown = formatAsMarkdown_generator (extract_text out [])
                               [] None \<rparr>)))
   \<and> generateLineContent always_empty Absent Absent = None"
proof -
  have n: "(Absent :: jsstring list field) \<noteq> Null" by simp
  have f: "\<exists>N. \<forall>k\<ge>N. \<forall>i. \<not> empty_result (empty_twice k i)"
    using empty_twice_finite by blast
  from generateLineContent_retry [OF n, of empty_twice Absent "[]", THEN conjunct1, rule_format, OF f]
  have one: "\<exists>r. generateLineContent empty_twice Absent Absent = Some r
         \<and> (case r of
              Inl e \<Rightarrow> \<exists>k i m. empty_twice k i = Throws m \<and> e = generation_failed_prefix @ m
            | Inr vs \<Rightarrow>
                length vs = 3
                \<and> (\<forall>j < 3. \<exists>k out. empty_twice k (int j) = Responds out
                       \<and> trim (extract_text out []) \<noteq> []
                       \<and> vs ! j =
                           \<lparr> g_content = extract_text out [],
                             g_markdown = formatAsMarkdown_generator (extract_text out [])
                               [] None \<rparr>))"
    by (simp only: present_def field.case)
  from generateLineContent_retry [OF n, of always_empty Absent "[]", THEN conjunct2, THEN conjunct2]
       always_empty_empty
  have two: "generateLineContent always_empty Absent Absent = None" by blast
  from n one two show ?thesis by blast
qed

text \<open>
  A backend whose every result is a single space: the content is empty after \<open>trim\<close>
  every time, and \<open>generateLineContent\<close> does not return.
\<close>

theorem generateLineContent_unbounded_counterexample:
  "generateLineContent always_empty (Value [ [105] ]) (Value [117]) = None"
proof (cases "generateLineContent always_empty (Value [ [105] ]) (Value [117])")
  case (Some r)
  then have "variations_loop always_empty [ [105] ] (Some [117]) 0 0 [] = Some r"
    by (simp add: generateLineContent_def with_default_def present_def)
  from variations_loop_returns_only_if [OF this always_empty_empty] show ?thesis by simp
qed simp

text \<open>Two empty results, then three texts: five calls, three variations.\<close>

lemma generateLineContent_empty_twice:
  "generateLineContent empty_twice Absent Absent =
     Some (Inr [\<lparr>g_content = [72, 105], g_markdown = [72, 105]\<rparr>,
                \<lparr>g_content = [72, 105], g_markdown = [72, 105]\<rparr>,
                \<lparr>g_content = [72, 105], g_markdown = [72, 105]\<rparr>])"
  apply (simp add: generateLineContent_def with_default_def present_def)
  apply (subst variations_loop.simps)
  apply (simp add: empty_twice_def trim_def)
  apply (subst variations_loop.simps)
  apply (simp add: empty_twice_def trim_def)
  apply (subst variations_loop.simps)
  apply (simp add: empty_twice_def trim_def is_ws_def)
  apply (subst variations_loop.simps)
  apply (simp add: empty_twice_def trim_def is_ws_def)
  apply (subst variations_loop.simps)
  apply (simp add: empty_twice_def trim_def is_ws_def)
  apply (subst variations_loop.simps)
  apply (simp add: empty_twice_def trim_def is_ws_def formatAsMarkdown_generator_def
           images_loop.simps Let_def)
  done

text \<open>With \<open>selected_images\<close> \<open>null\<close> the prompt cannot be built and no call is made.\<close>

lemma generateLineContent_null_images:
  "generateLineContent backend Null url = Some (Inl (type_error null_text length_name))"
  by (simp add: generateLineContent_def with_default_def)

subsection \<open>The client orchestrator\<close>

lemma run_append: "run P (xs @ ys) s = run P ys (run P xs s)"
  by (induction xs arbitrary: s) simp_all

lemma start_waiting: "waiting_on (start P) 0"
  by (simp add: start_def generateVariation_def waiting_on_def)

lemma start_calls: "onStreamComplete (start P) = [] \<and> onStreamError (start P) = []"
  by (simp add: start_def generateVariation_def)

lemma step_quiet:
  assumes "waiting_on s i" and "quiet i inp"
  shows "waiting_on (step P inp s) i
         \<and> onStreamComplete (step P inp s) = onStreamComplete s
         \<and> onStreamError (step P inp s) = onStreamError s"
proof (cases inp)
  case (Message j m)
  with assms show ?thesis
    by (cases m)
       (auto simp: step_def onmessage_def updateVariationProgress_def waiting_on_def Let_def
          split: event.splits backend_event.splits)
qed (use assms in simp_all)

lemma run_quiet:
  "waiting_on s i \<Longrightarrow> list_all (quiet i) q \<Longrightarrow>
   waiting_on (run P q s) i
   \<and> onStreamComplete (run P q s) = onStreamComplete s
   \<and> onStreamError (run P q s) = onStreamError s"
proof (induction q arbitrary: s)
  case Nil
  then show ?case by simp
next
  case (Cons inp q)
  from Cons.prems have w: "waiting_on (step P inp s) i"
    and c: "onStreamComplete (step P inp s) = onStreamComplete s"
    and e: "onStreamError (step P inp s) = onStreamError s"
    using step_quiet [of s i inp P] by simp_all
  from Cons.IH [OF w] Cons.prems c e show ?case by simp
qed

lemma step_terminal:
  assumes "waiting_on s i" and "terminal i t"
  shows "timers (step P t s) = [Suc i]
         \<and> length (eventSourceRefs (step P t s)) = 3
         \<and> isLoading (step P t s)
         \<and> onStreamComplete (step P t s) = onStreamComplete s
         \<and> onStreamError (step P t s) = onStreamError s"
proof (cases t)
  case (Message j m)
  with assms show ?thesis
    by (cases m)
       (auto simp: step_def onmessage_def handleVariationError_def waiting_on_def
          split: event.splits)
next
  case (SourceError j)
  with assms show ?thesis
    by (auto simp: step_def handleVariationError_def waiting_on_def)
qed (use assms in simp_all)

lemma session_advances:
  assumes "waiting_on s i" and "terminal i t" and "i < 2"
  shows "waiting_on (step P Timeout (step P t s)) (Suc i)
         \<and> onStreamComplete (step P Timeout (step P t s)) = onStreamComplete s
         \<and> onStreamError (step P Timeout (step P t s)) = onStreamError s"
  using step_terminal [OF assms(1,2), of P] assms(3)
  by (auto simp: step_def [of P Timeout] generateVariation_def waiting_on_def)

lemma last_session_finishes:
  assumes "waiting_on s 2" and "terminal 2 t"
  shows "onStreamComplete (step P Timeout (step P t s)) = onStreamComplete s @ [aggregate P]
         \<and> onStreamError (step P Timeout (step P t s)) = onStreamError s"
  using step_terminal [OF assms, of P]
  by (auto simp: step_def [of P Timeout] generateVariation_def finishAllVariations_def)

lemma step_complete_calls:
  "onStreamComplete (step P inp s) = onStreamComplete s
   \<or> onStreamComplete (step P inp s) = onStreamComplete s @ [aggregate P]"
proof (cases inp)
  case (Message j m)
  then show ?thesis
    by (cases m)
       (auto simp: step_def onmessage_def handleVariationError_def updateVariationProgress_def
          Let_def split: event.splits backend_event.splits)
next
  case (SourceError j)
  then show ?thesis by (simp add: step_def handleVariationError_def)
next
  case Timeout
  then show ?thesis
    by (auto simp: step_def generateVariation_def finishAllVariations_def split: list.splits)
next
  case Cancel
  then show ?thesis by (simp add: step_def handleCancelStream_def)
qed

lemma run_complete_calls:
  "\<forall>r \<in> set (onStreamComplete s). length r = length (snapshot P) \<Longrightarrow>
   \<forall>r \<in> set (onStreamComplete (run P inps s)). length r = length (snapshot P)"
proof (induction inps arbitrary: s)
  case Nil
  then show ?case by simp
next
  case (Cons inp inps)
  have "\<forall>r \<in> set (onStreamComplete (step P inp s)). length r = length (snapshot P)"
    using step_complete_calls [of P inp s] Cons.prems by (auto simp: aggregate_def)
  from Cons.IH [OF this] show ?case by simp
qed

lemma step_contents_length:
  assumes "length (streamedContents s) = length (snapshot P)"
  shows "length (streamedContents (step P inp s)) = length (snapshot P)"
proof (cases inp)
  case (Message j m)
  with assms show ?thesis
    by (cases m)
       (auto simp: step_def onmessage_def handleVariationError_def updateVariationProgress_def
          Let_def split: event.splits backend_event.splits)
next
  case (SourceError j)
  with assms show ?thesis by (simp add: step_def handleVariationError_def)
next
  case Timeout
  with assms show ?thesis
    by (auto simp: step_def generateVariation_def finishAllVariations_def split: list.splits)
next
  case Cancel
  with assms show ?thesis by (simp add: step_def handleCancelStream_def)
qed

lemma run_contents_length:
  "length (streamedContents s) = length (snapshot P) \<Longrightarrow>
   length (streamedContents (run P inps s)) = length (snapshot P)"
  by (induction inps arbitrary: s) (simp_all add: step_contents_length)

lemma complete_run_delivers:
  assumes q0: "list_all (quiet 0) q0" and t0: "terminal 0 t0"
    and q1: "list_all (quiet 1) q1" and t1: "terminal 1 t1"
    and q2: "list_all (quiet 2) q2" and t2: "terminal 2 t2"
  shows "onStreamComplete
           (run P (q0 @ [t0, Timeout] @ q1 @ [t1, Timeout] @ q2 @ [t2, Timeout]) (start P))
           = [aggregate P]
         \<and> onStreamError
           (run P (q0 @ [t0, Timeout] @ q1 @ [t1, Timeout] @ q2 @ [t2, Timeout]) (start P))
           = []"
proof -
  define a where "a = run P q0 (start P)"
  define b where "b = run P q1 (step P Timeout (step P t0 a))"
  define c where "c = run P q2 (step P Timeout (step P t1 b))"
  have a: "waiting_on a 0 \<and> onStreamComplete a = [] \<and> onStreamError a = []"
    using run_quiet [OF start_waiting q0, of P] start_calls [of P] by (simp add: a_def)
  have "waiting_on (step P Timeout (step P t0 a)) (Suc 0)
        \<and> onStreamComplete (step P Timeout (step P t0 a)) = []
        \<and> onStreamError (step P Timeout (step P t0 a)) = []"
    using session_advances [of a 0 t0 P] a t0 by simp
  then have b: "waiting_on b 1 \<and> onStreamComplete b = [] \<and> onStreamError b = []"
    using run_quiet [of "step P Timeout (step P t0 a)" 1 q1 P] q1 by (simp add: b_def)
  have "waiting_on (step P Timeout (step P t1 b)) (Suc 1)
        \<and> onStreamComplete (step P Timeout (step P t1 b)) = []
        \<and> onStreamError (step P Timeout (step P t1 b)) = []"
    using session_advances [of b 1 t1 P] b t1 by simp
  then have c: "waiting_on c 2 \<and> onStreamComplete c = [] \<and> onStreamError c = []"
    using run_quiet [of "step P Timeout (step P t1 b)" 2 q2 P] q2
    by (simp add: c_def numeral_2_eq_2)
  have "onStreamComplete (step P Timeout (step P t2 c)) = [aggregate P]
        \<and> onStreamError (step P Timeout (step P t2 c)) = []"
    using last_session_finishes [of c t2 P] c t2 by simp
  then show ?thesis
    by (simp add: run_append a_def b_def c_def)
qed

text \<open>
  C2.  For a run that starts from a state of three contents: every result that
  \<open>onStreamComplete\<close> receives, after any sequence of inputs, has exactly three entries
  (and the state keeps three contents); and when no cancel happens and each of the
  three sessions in turn receives messages and then an input that ends it, followed by
  its timer, \<open>onStreamComplete\<close> is called exactly once, with three entries, and
  \<open>onStreamError\<close> is not called.
\<close>

theorem aggregated_result_three:
  assumes "length (snapshot P) = 3"
  shows "(\<forall>r \<in> set (onStreamComplete (run P inps (start P))). length r = 3)
     \<and> length (streamedContents (run P inps (start P))) = 3
     \<and> (list_all (quiet 0) q0 \<and> terminal 0 t0 \<and> list_all (quiet 1) q1 \<and> terminal 1 t1
          \<and> list_all (quiet 2) q2 \<and> terminal 2 t2 \<longrightarrow>
        onStreamComplete
          (run P (q0 @ [t0, Timeout] @ q1 @ [t1, Timeout] @ q2 @ [t2, Timeout]) (start P))
          = [aggregate P]
        \<and> length (aggregate P) = 3
        \<and> onStreamError
          (run P (q0 @ [t0, Timeout] @ q1 @ [t1, Timeout] @ q2 @ [t2, Timeout]) (start P))
          = [])"
proof (intro conjI impI)
  show "\<forall>r \<in> set (onStreamComplete (run P inps (start P))). length r = 3"
    using run_complete_calls [of "start P" P inps] start_calls [of P] assms by simp
  show "length (streamedContents (run P inps (start P))) = 3"
    using run_contents_length [of "start P" P inps] assms
    by (simp add: start_def generateVariation_def)
  show "length (aggregate P) = 3"
    using assms by (simp add: aggregate_def)
next
  assume h: "list_all (quiet 0) q0 \<and> terminal 0 t0 \<and> list_all (quiet 1) q1 \<and> terminal 1 t1
          \<and> list_all (quiet 2) q2 \<and> terminal 2 t2"
  then show "onStreamComplete
          (run P (q0 @ [t0, Timeout] @ q1 @ [t1, Timeout] @ q2 @ [t2, Timeout]) (start P))
          = [aggregate P]"
    using complete_run_delivers [of q0 t0 q1 t1 q2 t2 P] by simp
  from h show "onStreamError
          (run P (q0 @ [t0, Timeout] @ q1 @ [t1, Timeout] @ q2 @ [t2, Timeout]) (start P))
          = []"
    using complete_run_delivers [of q0 t0 q1 t1 q2 t2 P] by simp
qed

theorem aggregated_result_three_witness:
  "length (snapshot example_post) = 3
   \<and> onStreamComplete
       (run example_post
          ([Message 0 (Json ProcessStart), Message 0 (Json (BackendEvent (OutputTextDelta [72])))]
           @ [Message 0 Sentinel, Timeout] @ [] @ [Message 1 (Json (ErrorEvent [101])), Timeout]
           @ [Message 2 Unparseable] @ [SourceError 2, Timeout])
          (start example_post))
     = [aggregate example_post]
   \<and> length (aggregate example_post) = 3"
  using aggregated_result_three [of example_post "[]"
          "[Message 0 (Json ProcessStart), Message 0 (Json (BackendEvent (OutputTextDelta [72])))]"
          "Message 0 Sentinel" "[]" "Message 1 (Json (ErrorEvent [101]))"
          "[Message 2 Unparseable]" "SourceError 2"]
  by (simp add: example_post_def mounted_def)

lemmas orchestrator_defs =
  start_def mounted_def example_post_def generateVariation_def step_def onmessage_def
  handleVariationError_def updateVariationProgress_def finishAllVariations_def
  handleCancelStream_def close_source_def Let_def

text \<open>
  After a cancel while a session's event source is open nothing can happen any more:
  every source is closed and no timer is pending, so no result is delivered.
\<close>

lemma cancel_while_open:
  assumes "waiting_on s i"
  shows "run P inps (step P Cancel s) = step P Cancel s
         \<and> onStreamError (step P Cancel s) = onStreamError s @ [cancelled_text]
         \<and> onStreamComplete (step P Cancel s) = onStreamComplete s"
proof -
  define d where "d = step P Cancel s"
  have refs: "eventSourceRefs d = map close_source (eventSourceRefs s)"
    and t: "timers d = []" and l: "\<not> isLoading d"
    using assms by (simp_all add: d_def step_def handleCancelStream_def waiting_on_def)
  have no: "eventSourceRefs d ! j \<noteq> Open" if "j < 3" for j
    using that assms by (simp add: refs waiting_on_def close_source_def split: source.splits)
  have idle: "step P inp d = d" for inp
    using no t l by (cases inp) (auto simp: step_def)
  have "run P inps d = d"
    by (induction inps) (simp_all add: idle)
  moreover have "onStreamError d = onStreamError s @ [cancelled_text]"
    and "onStreamComplete d = onStreamComplete s"
    using assms by (simp_all add: d_def step_def handleCancelStream_def waiting_on_def)
  ultimately show ?thesis by (simp add: d_def)
qed

text \<open>
  C6 at a failing input.  Session 0 ends with the sentinel; the user cancels during the
  500 ms before the next session starts; the pending timer is not cleared, so sessions
  1 and 2 still run, and after the single cancellation signal the aggregated result is
  delivered.
\<close>

theorem cancel_between_sessions:
  "onStreamError (run example_post [Message 0 Sentinel, Cancel] (start example_post))
     = [cancelled_text]
   \<and> onStreamComplete (run example_post [Message 0 Sentinel, Cancel] (start example_post)) = []
   \<and> onStreamError
       (run example_post
          [Message 0 Sentinel, Cancel, Timeout, Message 1 Sentinel, Timeout,
           Message 2 Sentinel, Timeout] (start example_post))
     = [cancelled_text]
   \<and> onStreamComplete
       (run example_post
          [Message 0 Sentinel, Cancel, Timeout, Message 1 Sentinel, Timeout,
           Message 2 Sentinel, Timeout] (start example_post))
     = [ [\<lparr>g_content = [], g_markdown = []\<rparr>, \<lparr>g_content = [], g_markdown = []\<rparr>,
         \<lparr>g_content = [], g_markdown = []\<rparr>] ]"
  by (simp add: orchestrator_defs aggregate_def formatAsMarkdown_def images_loop.simps)

text \<open>
  C4 at a failing input: the article title is \<^verbatim>\<open>Example Post\<close> and every session
  receives an \<open>error\<close> event.  Right after the error of session 0 the state holds the
  fallback text for it, which contains the number 1 and the title, and all three
  sessions end in \<open>Error\<close>.  But each later write starts again from the captured
  \<^verbatim>\<open>streamedContents\<close>, so at the end only session 2 has its fallback in the state, and
  the delivered result is made from the captured contents: three empty strings.
\<close>

theorem fallback_lost:
  "streamedContents (run example_post [Message 0 (Json (ErrorEvent [101]))] (start example_post))
     = [variation_label @ [49] @ generation_failed_text
          @ [69, 120, 97, 109, 112, 108, 101, 32, 80, 111, 115, 116] @ see_original_text, [], [] ]
   \<and> map status (variationStates
        (run example_post
          [Message 0 (Json (ErrorEvent [101])), Timeout, Message 1 (Json (ErrorEvent [101])),
           Timeout, Message 2 (Json (ErrorEvent [101])), Timeout] (start example_post)))
     = [Error, Error, Error]
   \<and> streamedContents
        (run example_post
          [Message 0 (Json (ErrorEvent [101])), Timeout, Message 1 (Json (ErrorEvent [101])),
           Timeout, Message 2 (Json (ErrorEvent [101])), Timeout] (start example_post))
     = [ [], [], fallbackContent example_post 2]
   \<and> onStreamComplete
        (run example_post
          [Message 0 (Json (ErrorEvent [101])), Timeout, Message 1 (Json (ErrorEvent [101])),
           Timeout, Message 2 (Json (ErrorEvent [101])), Timeout] (start example_post))
     = [ [\<lparr>g_content = [], g_markdown = []\<rparr>, \<lparr>g_content = [], g_markdown = []\<rparr>,
         \<lparr>g_content = [], g_markdown = []\<rparr>] ]"
  by (simp add: orchestrator_defs aggregate_def fallbackContent_def or_else_def decimal.simps
        formatAsMarkdown_def images_loop.simps)

lemma step_lengths:
  assumes "length (variationStates s) = 3 \<and> length (accumulatedText s) = 3"
  shows "length (variationStates (step P inp s)) = 3 \<and> length (accumulatedText (step P inp s)) = 3"
proof (cases inp)
  case (Message j m)
  with assms show ?thesis
    by (cases m)
       (auto simp: step_def onmessage_def handleVariationError_def updateVariationProgress_def
          Let_def split: event.splits backend_event.splits)
next
  case (SourceError j)
  with assms show ?thesis by (simp add: step_def handleVariationError_def)
next
  case Timeout
  with assms show ?thesis
    by (auto simp: step_def generateVariation_def finishAllVariations_def split: list.splits)
next
  case Cancel
  with assms show ?thesis by (simp add: step_def handleCancelStream_def)
qed

lemma run_lengths:
  "length (variationStates s) = 3 \<and> length (accumulatedText s) = 3 \<Longrightarrow>
   length (variationStates (run P inps s)) = 3 \<and> length (accumulatedText (run P inps s)) = 3"
  by (induction inps arbitrary: s) (simp_all add: step_lengths)

lemma reachable_lengths:
  "length (variationStates (run P inps (start P))) = 3
   \<and> length (accumulatedText (run P inps (start P))) = 3"
  by (rule run_lengths) (simp add: start_def generateVariation_def)

lemma range_update:
  "progress_in_range vs \<Longrightarrow> 0 \<le> progress v \<Longrightarrow> progress v \<le> 100 \<Longrightarrow>
   progress_in_range (vs[i := v])"
  unfolding progress_in_range_def using set_update_subset_insert [of vs i v] by fastforce

lemma range_updateVariationProgress:
  "progress_in_range (variationStates s) \<Longrightarrow> 0 \<le> p \<Longrightarrow> p \<le> 100 \<Longrightarrow>
   progress_in_range (variationStates (updateVariationProgress j p s))"
  by (simp add: updateVariationProgress_def range_update)

lemma range_handleVariationError:
  "progress_in_range (variationStates s) \<Longrightarrow>
   progress_in_range (variationStates (handleVariationError P j e s))"
  by (simp add: handleVariationError_def range_update)

lemma range_generateVariation:
  "progress_in_range (variationStates s) \<Longrightarrow>
   progress_in_range (variationStates (generateVariation P j s))"
  by (simp add: generateVariation_def finishAllVariations_def range_update)

lemma range_onmessage:
  assumes "progress_in_range (variationStates s)"
  shows "progress_in_range (variationStates (onmessage P j m s))"
proof (cases m)
  case Sentinel
  with assms show ?thesis by (simp add: onmessage_def range_update)
next
  case Unparseable
  with assms show ?thesis by (simp add: onmessage_def)
next
  case (Json e)
  show ?thesis
  proof (cases e)
    case (BackendEvent b)
    with Json assms show ?thesis
      by (cases b)
         (simp_all add: onmessage_def Let_def range_updateVariationProgress)
  qed (use Json assms in \<open>simp_all add: onmessage_def range_updateVariationProgress
         range_handleVariationError\<close>)
qed

lemma step_progress_range:
  assumes "progress_in_range (variationStates s)"
  shows "progress_in_range (variationStates (step P inp s))"
proof (cases inp)
  case (Message j m)
  with assms show ?thesis by (simp add: step_def range_onmessage)
next
  case (SourceError j)
  with assms show ?thesis by (simp add: step_def range_handleVariationError)
next
  case Timeout
  with assms show ?thesis
    by (cases "timers s") (simp_all add: step_def range_generateVariation)
next
  case Cancel
  with assms show ?thesis by (simp add: step_def handleCancelStream_def)
qed

lemma run_progress_range:
  "progress_in_range (variationStates s) \<Longrightarrow> progress_in_range (variationStates (run P inps s))"
  by (induction inps arbitrary: s) (simp_all add: step_progress_range)

lemma reachable_progress_range:
  assumes "i < 3"
  shows "0 \<le> progress_of (run P inps (start P)) i \<and> progress_of (run P inps (start P)) i \<le> 100"
proof -
  have "progress_in_range (variationStates (start P))"
    by (simp add: start_def generateVariation_def progress_in_range_def)
  then have "progress_in_range (variationStates (run P inps (start P)))"
    by (rule run_progress_range)
  moreover have "variationStates (run P inps (start P)) ! i \<in> set (variationStates (run P inps (start P)))"
    using reachable_lengths [of P inps] assms by simp
  ultimately show ?thesis by (simp add: progress_of_def progress_in_range_def)
qed

lemma step_delta:
  assumes w: "waiting_on s i"
    and len: "length (variationStates s) = 3 \<and> length (accumulatedText s) = 3"
  shows "waiting_on (step P (Message i (Json (BackendEvent (OutputTextDelta d)))) s) i
     \<and> accumulatedText (step P (Message i (Json (BackendEvent (OutputTextDelta d)))) s) ! i
         = accumulatedText s ! i @ d
     \<and> progress_of (step P (Message i (Json (BackendEvent (OutputTextDelta d)))) s) i
         = min (60 + of_nat (length (accumulatedText s ! i @ d)) / 15) 95"
  using assms
  by (simp add: step_def onmessage_def updateVariationProgress_def waiting_on_def Let_def
        progress_of_def)

lemma run_deltas:
  assumes "waiting_on s i"
    and "length (variationStates s) = 3 \<and> length (accumulatedText s) = 3"
  shows "progress_of (run P (deltas i (d # ds)) s) i
           = min (60 + of_nat (length (accumulatedText s ! i @ concat (d # ds))) / 15) 95"
  using assms
proof (induction ds arbitrary: s d)
  case Nil
  then show ?case using step_delta [of s i P d] by (simp add: deltas_def)
next
  case (Cons e ds)
  let ?s = "step P (Message i (Json (BackendEvent (OutputTextDelta d)))) s"
  have w: "waiting_on ?s i" and a: "accumulatedText ?s ! i = accumulatedText s ! i @ d"
    using step_delta [OF Cons.prems, of P d] by simp_all
  have l: "length (variationStates ?s) = 3 \<and> length (accumulatedText ?s) = 3"
    using step_lengths [OF Cons.prems(2)] .
  have "run P (deltas i (d # e # ds)) s = run P (deltas i (e # ds)) ?s"
    by (simp add: deltas_def)
  with Cons.IH [OF w l, of e] a show ?case by simp
qed

lemma delta_progress_mono:
  "min (60 + of_nat (length (a @ d)) / 15) (95 :: rat)
     \<le> min (60 + of_nat (length (a @ concat (d # ds))) / 15) 95"
  by (simp add: min_le_iff_disj divide_right_mono)

text \<open>
  C3, as the code has it.  \<^verbatim>\<open>updateVariationProgress\<close> stores the value it is given,
  the error path stores 0, and no maximum with the old value is taken.  What holds over
  every run: the stored progress of each session stays between 0 and 100; while the
  orchestrator waits on a session, a run of token deltas sets its progress to
  \<open>min (60 + length / 15) 95\<close> of the text accumulated so far, so progress does not
  decrease from one delta to the next; and the sentinel sets it to 100.
\<close>

theorem progress_range_and_deltas:
  "(i < 3 \<longrightarrow>
      0 \<le> progress_of (run P inps (start P)) i \<and> progress_of (run P inps (start P)) i \<le> 100)
   \<and> (waiting_on (run P inps (start P)) i \<longrightarrow>
        progress_of (run P (deltas i (d # ds)) (run P inps (start P))) i
          = min (60 + of_nat (length (accumulatedText (run P inps (start P)) ! i
                                       @ concat (d # ds))) / 15) 95
        \<and> progress_of (run P (deltas i [d]) (run P inps (start P))) i
            \<le> progress_of (run P (deltas i (d # ds)) (run P inps (start P))) i
        \<and> progress_of (step P (Message i Sentinel) (run P inps (start P))) i = 100)"
proof (intro conjI impI)
  assume "i < 3"
  then show "0 \<le> progress_of (run P inps (start P)) i"
    and "progress_of (run P inps (start P)) i \<le> 100"
    using reachable_progress_range [of i P inps] by simp_all
next
  assume w: "waiting_on (run P inps (start P)) i"
  note l = reachable_lengths [of P inps]
  show "progress_of (run P (deltas i (d # ds)) (run P inps (start P))) i
          = min (60 + of_nat (length (accumulatedText (run P inps (start P)) ! i
                                       @ concat (d # ds))) / 15) 95"
    by (rule run_deltas [OF w l])
  show "progress_of (run P (deltas i [d]) (run P inps (start P))) i
            \<le> progress_of (run P (deltas i (d # ds)) (run P inps (start P))) i"
    unfolding run_deltas [OF w l] using delta_progress_mono [of _ d ds] by simp
  show "progress_of (step P (Message i Sentinel) (run P inps (start P))) i = 100"
    using w l by (simp add: step_def onmessage_def waiting_on_def progress_of_def)
qed

theorem progress_range_and_deltas_witness:
  "waiting_on (run example_post [Message 0 (Json ProcessStart)] (start example_post)) 0
   \<and> 0 \<le> progress_of (run example_post [Message 0 (Json ProcessStart)] (start example_post)) 0
   \<and> progress_of (run example_post [Message 0 (Json ProcessStart)] (start example_post)) 0 \<le> 100
   \<and> progress_of (run example_post (deltas 0 [ [72, 105] ])
        (run example_post [Message 0 (Json ProcessStart)] (start example_post))) 0 = 902 / 15
   \<and> progress_of (run example_post (deltas 0 [ [72, 105], replicate 28 33])
        (run example_post [Message 0 (Json ProcessStart)] (start example_post))) 0 = 62
   \<and> progress_of (step example_post (Message 0 Sentinel)
        (run example_post [Message 0 (Json ProcessStart)] (start example_post))) 0 = 100"
proof -
  have w: "waiting_on (run example_post [Message 0 (Json ProcessStart)] (start example_post)) 0"
    by (simp add: start_def generateVariation_def step_def onmessage_def
          updateVariationProgress_def waiting_on_def)
  have a: "accumulatedText (run example_post [Message 0 (Json ProcessStart)] (start example_post)) ! 0 = []"
    by (simp add: start_def generateVariation_def step_def onmessage_def
          updateVariationProgress_def)
  show ?thesis
    using w a
      progress_range_and_deltas [of 0 example_post "[Message 0 (Json ProcessStart)]" "[72, 105]" "[]"]
      progress_range_and_deltas [of 0 example_post "[Message 0 (Json ProcessStart)]" "[72, 105]"
        "[replicate 28 33]"]
    by simp
qed

text \<open>
  The progress of session 0 on the messages that the relay itself writes for a request:
  \<open>process_start\<close>, \<open>scraped_content\<close>, \<open>variation_info\<close>, \<open>generation_starting\<close>
  bring it to 35; the generator's \<open>web_search_complete\<close> leaves it, and the generator's
  own \<open>variation_info\<close> lowers it to 30.  An \<open>error\<close> event after the first four messages
  lowers it from 35 to 0.
\<close>

theorem progress_decreases_counterexample:
  "progress_of (run example_post
       (feed 0 (take 4 (channel (handler_stream working_scraper GET (RequestData a_request) None a_key))))
       (start example_post)) 0 = 35
   \<and> progress_of (run example_post
       (feed 0 (take 6 (channel (handler_stream working_scraper GET (RequestData a_request) None a_key))))
       (start example_post)) 0 = 30
   \<and> progress_of (run example_post
       (feed 0 (take 4 (channel (handler_stream working_scraper GET (RequestData a_request) None a_key)))
        @ [Message 0 (Json (ErrorEvent [101]))])
       (start example_post)) 0 = 0"
proof -
  have ch: "take 6 (channel (handler_stream working_scraper GET (RequestData a_request) None a_key))
      = [Data ProcessStart, Data (ScrapedContent [70] 60 0), Data (VariationInfo 0),
         Data GenerationStarting, Data WebSearchComplete, Data (VariationInfo 0)]"
    by (simp add: handler_stream_def channel_def working_scraper_def a_request_def a_key_def
          fetched_article_def pad_short_content_def relay_generation_def
          generateLineContentStream_def a_backend_def Let_def with_default_def
          web_search_flag_def index_or_zero_def)
  have ch4: "take 4 (channel (handler_stream working_scraper GET (RequestData a_request) None a_key))
      = [Data ProcessStart, Data (ScrapedContent [70] 60 0), Data (VariationInfo 0),
         Data GenerationStarting]"
    by (simp add: handler_stream_def channel_def working_scraper_def a_request_def a_key_def
          fetched_article_def pad_short_content_def relay_generation_def
          generateLineContentStream_def a_backend_def Let_def with_default_def
          web_search_flag_def index_or_zero_def)
  show ?thesis
    unfolding ch ch4
    by (simp add: feed_def orchestrator_defs progress_of_def)
qed

end
